theory Spec2Isabelle
  imports Main "HOL-Library.Word"
begin

section \<open>The audio device buffer (webrtc/modules/audio_device/audio_device_buffer.cc)\<close>

text \<open>
  A shallow embedding of the class \<open>AudioDeviceBuffer\<close>. Every member function becomes
  a function on a record of the data members. What the object does to its collaborators
  (the histogram macro, the signal processing library, the audio transport and the
  statistics log) is appended to the field \<open>trace\<close>, in the order of the calls.

  \<^item> \<open>size_t\<close> is 64 bits wide (the x64 build); arithmetic on it wraps around, as does
    that on the other machine integers.
  \<^item> The class declaration (\<open>audio_device_buffer.h\<close>) is not among the sources. The
    widths of the members are read off the parameter types of this file. The cumulative
    counters (\<open>rec_callbacks_\<close>, \<open>rec_samples_\<close>, \<open>num_stat_reports_\<close>, the two
    \<open>*_stat_count_\<close> and their playout twins) are natural numbers: they grow by one or
    by a frame count per call and do not reach the end of a 64-bit range.
  \<^item> A sample buffer is the list of the 16-bit samples it holds; its size in bytes is
    twice its length. Every size the code asks for is a multiple of \<open>sizeof(int16_t)\<close>.
  \<^item> A function that can fault returns a sum: \<open>Inl\<close> the fault, \<open>Inr\<close> the result with
    the new state. The faults are a failed \<open>RTC_DCHECK\<close>, a division by zero and a read
    past the end of a buffer.
  \<^item> \<open>RTC_DCHECK_RUN_ON\<close> (the thread checkers) is not modelled: every call is taken to
    come from the thread it belongs to, and detaching a checker has no effect here.
  \<^item> \<open>LOG\<close> lines are not modelled, but for the two lines of statistics that
    \<open>LogStats\<close> prints; the floating point \<open>rate\<close> of those lines is left out.
\<close>

subsection \<open>Types and constants\<close>

type_synonym size_t = "64 word"
type_synonym uint64_t = "64 word"
type_synonym int64_t = "64 word"
type_synonym uint32_t = "32 word"
type_synonym int32_t = "32 word"
type_synonym int16_t = "16 word"

text \<open>Modelled from the spec: \<open>RTC_DCHECK\<close> (webrtc/base/checks.h is not among the
  sources). Misuse is "surfaced as hard assertion failures (fatal in debug,
  undefined-but-contained in release)": a function with such a check takes the flag
  \<open>dcheck_is_on\<close>; with it a failing check is the fault \<open>DCheckFailure\<close>, without it the
  check is skipped and the code after it runs.\<close>

datatype fault = DCheckFailure | DivideByZero | OutOfBoundsRead

text \<open>Modelled from the spec: \<open>AudioDeviceModule::ChannelType\<close> (its header is not among
  the sources), with the "both channels" sentinel \<open>kChannelBoth\<close> next to the left and
  the right channel.\<close>

datatype ChannelType = kChannelLeft | kChannelRight | kChannelBoth

datatype LogState = LOG_START | LOG_STOP | LOG_ACTIVE

definition kTimerIntervalInSeconds :: size_t where
  "kTimerIntervalInSeconds = 10"

text \<open>Modelled from the spec: the clock of webrtc/base/timeutils.h (not among the
  sources). The spec measures "elapsed active time" against 10 s and the "elapsed time
  since last tick" in milliseconds. The clock is a natural number of milliseconds, and
  a member function that reads it takes the reading as an argument; \<open>rtc::TimeMillis()\<close>
  returns it as an \<open>int64_t\<close>, \<open>rtc::TimeSince(earlier)\<close> is the time now minus \<open>earlier\<close>,
  \<open>rtc::TimeDiff(later, earlier)\<close> is \<open>later - earlier\<close>, and a second has
  \<open>rtc::kNumMillisecsPerSec\<close> = 1000 milliseconds.\<close>

definition kNumMillisecsPerSec :: int64_t where
  "kNumMillisecsPerSec = 1000"

definition TimeMillis :: "nat \<Rightarrow> int64_t" where
  "TimeMillis clock = of_nat clock"

definition TimeSince :: "nat \<Rightarrow> int64_t \<Rightarrow> int64_t" where
  "TimeSince now earlier = TimeMillis now - earlier"

definition TimeDiff :: "int64_t \<Rightarrow> int64_t \<Rightarrow> int64_t" where
  "TimeDiff later earlier = later - earlier"

definition kTimerIntervalInMilliseconds :: size_t where
  "kTimerIntervalInMilliseconds = kTimerIntervalInSeconds * kNumMillisecsPerSec"

definition kMinValidCallTimeTimeInSeconds :: size_t where
  "kMinValidCallTimeTimeInSeconds = 10"

definition kMinValidCallTimeTimeInMilliseconds :: size_t where
  "kMinValidCallTimeTimeInMilliseconds = kMinValidCallTimeTimeInSeconds * kNumMillisecsPerSec"

text \<open>The closures posted to \<open>task_queue_\<close>.\<close>

datatype task =
    Task_ResetRecStats
  | Task_ResetPlayStats
  | Task_UpdateRecStats int16_t size_t
  | Task_UpdatePlayStats int16_t size_t
  | Task_LogStats LogState

text \<open>Modelled from the spec: the \<open>AudioTransport\<close> interface (its header is not among
  the sources), the "transport capability" with the two contracts
  "deliverRecorded(buffer, frameCount, bytesPerSample, channels, sampleRateHz,
  totalDelayMs, clockDriftPpm, micLevel, typingDetected) -> (newMicLevel, success)" and
  "requestPlayout(requestedFrames, bytesPerSample, channels, sampleRateHz, outBuffer) ->
  (framesProduced, elapsedMs?, ntpMs?, resultCode)". The transport is opaque: a call of
  it is an event of the trace that records the arguments, and what it gives back is an
  argument of the member function that calls it. An \<open>AudioTransport*\<close> is \<open>None\<close> for
  \<open>nullptr\<close> and \<open>Some a\<close> for the object at the address \<open>a\<close>.\<close>

type_synonym AudioTransport_ptr = "nat option"

text \<open>The arguments of \<open>RecordedDataIsAvailable\<close> and what it gives back: its result and
  the \<open>new_mic_level\<close> it leaves in the reference argument.\<close>

record RecordedData_args =
  rd_audioSamples :: "int16_t list"
  rd_nSamples :: size_t
  rd_nBytesPerSample :: size_t
  rd_nChannels :: size_t
  rd_samplesPerSec :: uint32_t
  rd_totalDelayMS :: uint32_t
  rd_clockDrift :: int32_t
  rd_currentMicLevel :: uint32_t
  rd_keyPressed :: bool

record RecordedData_reply =
  rd_res :: int32_t
  rd_newMicLevel :: uint32_t

text \<open>The arguments of \<open>NeedMorePlayData\<close> and what it gives back: its result, the samples
  it wrote from the start of the buffer, and \<open>num_samples_out\<close>. The two time stamps it
  also returns are never read.\<close>

record PlayData_args =
  pd_nSamples :: size_t
  pd_nBytesPerSample :: size_t
  pd_nChannels :: size_t
  pd_samplesPerSec :: uint32_t

record PlayData_reply =
  pd_res :: uint32_t
  pd_written :: "int16_t list"
  pd_nSamplesOut :: size_t

text \<open>One line of statistics printed by \<open>LogStats\<close>.\<close>

record stats_line =
  sl_time_since_last :: int64_t
  sl_sample_rate_kHz :: uint32_t
  sl_callbacks :: uint64_t
  sl_samples :: uint32_t
  sl_level :: int16_t

text \<open>The events of the trace. Modelled from the spec: the histogram macro
  \<open>RTC_HISTOGRAM_BOOLEAN\<close> (webrtc/system_wrappers/include/metrics.h is not among the
  sources), a telemetry sink that "accepts a named boolean/counter event ...
  fire-and-forget"; the one histogram of this file is "WebRTC.Audio.RecordedOnlyZeros".
  The other events are a peak measured by \<open>WebRtcSpl_MaxAbsValueW16\<close> on either side,
  with its result, a call of the transport, and a line of statistics.\<close>

datatype event =
    Histogram_RecordedOnlyZeros bool
  | Rec_MaxAbsValueW16 int16_t
  | Play_MaxAbsValueW16 int16_t
  | Call_RecordedDataIsAvailable RecordedData_args
  | Call_NeedMorePlayData PlayData_args
  | Log_REC stats_line
  | Log_PLAY stats_line

subsection \<open>The object\<close>

record AudioDeviceBuffer =
  task_queue :: "task list"
  delayed_tasks :: "(nat \<times> task) list"
  audio_transport_cb :: AudioTransport_ptr
  rec_sample_rate :: uint32_t
  play_sample_rate :: uint32_t
  rec_channels :: size_t
  play_channels :: size_t
  playing :: bool
  recording :: bool
  current_mic_level :: uint32_t
  new_mic_level :: uint32_t
  typing_status :: bool
  play_delay_ms :: int32_t
  rec_delay_ms :: int32_t
  clock_drift :: int32_t
  num_stat_reports :: nat
  rec_callbacks :: nat
  last_rec_callbacks :: nat
  play_callbacks :: nat
  last_play_callbacks :: nat
  rec_samples :: nat
  last_rec_samples :: nat
  play_samples :: nat
  last_play_samples :: nat
  max_rec_level :: int16_t
  max_play_level :: int16_t
  last_timer_task_time :: int64_t
  rec_stat_count :: nat
  play_stat_count :: nat
  play_start_time :: uint64_t
  rec_start_time :: uint64_t
  only_silence_recorded :: bool
  rec_buffer :: "int16_t list"
  play_buffer :: "int16_t list"
  trace :: "event list"

definition AudioDeviceBuffer_ctor :: AudioDeviceBuffer where
  "AudioDeviceBuffer_ctor =
     \<lparr> task_queue = [], delayed_tasks = [],
       audio_transport_cb = None,
       rec_sample_rate = 0, play_sample_rate = 0,
       rec_channels = 0, play_channels = 0,
       playing = False, recording = False,
       current_mic_level = 0, new_mic_level = 0,
       typing_status = False,
       play_delay_ms = 0, rec_delay_ms = 0, clock_drift = 0,
       num_stat_reports = 0,
       rec_callbacks = 0, last_rec_callbacks = 0,
       play_callbacks = 0, last_play_callbacks = 0,
       rec_samples = 0, last_rec_samples = 0,
       play_samples = 0, last_play_samples = 0,
       max_rec_level = 0, max_play_level = 0,
       last_timer_task_time = 0,
       rec_stat_count = 0, play_stat_count = 0,
       play_start_time = 0, rec_start_time = 0,
       only_silence_recorded = True,
       rec_buffer = [], play_buffer = [],
       trace = [] \<rparr>"

subsection \<open>The collaborators that are not among the sources\<close>

text \<open>Modelled from the spec: \<open>rtc::TaskQueue::PostTask\<close> and \<open>PostDelayedTask\<close>
  (webrtc/base/task_queue.h is not among the sources). The scheduler "accepts immediate
  and delayed deferred-task submission; guarantees FIFO ordering and single-context
  execution". A task posted at the time \<open>now\<close> with a delay is due at \<open>now\<close> plus the
  delay; among the delayed tasks the earliest is first, and first come first served
  among equals.\<close>

definition PostTask :: "task \<Rightarrow> AudioDeviceBuffer \<Rightarrow> AudioDeviceBuffer" where
  "PostTask t s = s\<lparr>task_queue := task_queue s @ [t]\<rparr>"

fun insert_timer :: "nat \<times> task \<Rightarrow> (nat \<times> task) list \<Rightarrow> (nat \<times> task) list" where
  "insert_timer x [] = [x]"
| "insert_timer x (y # ys) = (if fst x < fst y then x # y # ys else y # insert_timer x ys)"

definition PostDelayedTask :: "nat \<Rightarrow> task \<Rightarrow> uint32_t \<Rightarrow> AudioDeviceBuffer \<Rightarrow> AudioDeviceBuffer" where
  "PostDelayedTask now t milliseconds s =
     s\<lparr>delayed_tasks := insert_timer (now + unat milliseconds, t) (delayed_tasks s)\<rparr>"

text \<open>Modelled from the spec: \<open>rtc::Buffer\<close> (webrtc/base/buffer.h is not among the
  sources), "a resizable raw byte container ... sized to frames x channels x 2 bytes",
  which "grows/shrinks in place". \<open>size()\<close> is in bytes. \<open>SetData\<close> replaces the content
  by the first \<open>size\<close> bytes at the source pointer. \<open>SetSize\<close> keeps the content up to
  the new size; the source leaves the bytes it adds uninitialised, here they are zero,
  and no property below depends on their value.\<close>

definition Buffer_size :: "int16_t list \<Rightarrow> size_t" where
  "Buffer_size b = of_nat (2 * length b)"

definition Buffer_SetData :: "int16_t list \<Rightarrow> size_t \<Rightarrow> int16_t list" where
  "Buffer_SetData src size_in_bytes = take (unat size_in_bytes div 2) src"

definition Buffer_SetSize :: "size_t \<Rightarrow> int16_t list \<Rightarrow> int16_t list" where
  "Buffer_SetSize size_in_bytes b =
     take (unat size_in_bytes div 2) b @ replicate (unat size_in_bytes div 2 - length b) 0"

text \<open>Modelled from the spec: \<open>WebRtcSpl_MaxAbsValueW16\<close> (the signal processing library
  is not among the sources), the "largest absolute value among signed 16-bit samples in
  a buffer". The result is an \<open>int16_t\<close>, so the magnitude of -32768 is returned as the
  largest \<open>int16_t\<close>, 32767; the peak of no samples is 0.\<close>

definition max_abs_int :: "int16_t list \<Rightarrow> int" where
  "max_abs_int v = fold (\<lambda>x m. max \<bar>sint x\<bar> m) v 0"

definition WebRtcSpl_MaxAbsValueW16 :: "int16_t list \<Rightarrow> int16_t" where
  "WebRtcSpl_MaxAbsValueW16 v = word_of_int (min 32767 (max_abs_int v))"

subsection \<open>Registration, start and stop\<close>

text \<open>The destructor checks that nothing is active any more.\<close>

definition AudioDeviceBuffer_dtor :: "bool \<Rightarrow> AudioDeviceBuffer \<Rightarrow> fault + unit" where
  "AudioDeviceBuffer_dtor dcheck_is_on s =
     (if dcheck_is_on \<and> playing s then Inl DCheckFailure
      else if dcheck_is_on \<and> recording s then Inl DCheckFailure
      else Inr ())"

definition RegisterAudioCallback ::
  "AudioTransport_ptr \<Rightarrow> AudioDeviceBuffer \<Rightarrow> int32_t \<times> AudioDeviceBuffer" where
  "RegisterAudioCallback audio_callback s =
     (if playing s \<or> recording s then (- 1, s)
      else (0, s\<lparr>audio_transport_cb := audio_callback\<rparr>))"

definition StartPeriodicLogging :: "AudioDeviceBuffer \<Rightarrow> AudioDeviceBuffer" where
  "StartPeriodicLogging s = PostTask (Task_LogStats LOG_START) s"

definition StopPeriodicLogging :: "AudioDeviceBuffer \<Rightarrow> AudioDeviceBuffer" where
  "StopPeriodicLogging s = PostTask (Task_LogStats LOG_STOP) s"

definition StartPlayout :: "nat \<Rightarrow> AudioDeviceBuffer \<Rightarrow> AudioDeviceBuffer" where
  "StartPlayout now s =
     (if playing s then s
      else let s1 = PostTask Task_ResetPlayStats s;
               s2 = (if \<not> recording s1 then StartPeriodicLogging s1 else s1);
               now_time = TimeMillis now
           in s2\<lparr>play_start_time := now_time, playing := True\<rparr>)"

definition StartRecording :: "nat \<Rightarrow> AudioDeviceBuffer \<Rightarrow> AudioDeviceBuffer" where
  "StartRecording now s =
     (if recording s then s
      else let s1 = PostTask Task_ResetRecStats s;
               s2 = (if \<not> playing s1 then StartPeriodicLogging s1 else s1)
           in s2\<lparr>rec_start_time := TimeMillis now, recording := True,
                 only_silence_recorded := True\<rparr>)"

definition StopPlayout :: "AudioDeviceBuffer \<Rightarrow> AudioDeviceBuffer" where
  "StopPlayout s =
     (if \<not> playing s then s
      else let s1 = s\<lparr>playing := False\<rparr>
           in if \<not> recording s1 then StopPeriodicLogging s1 else s1)"

text \<open>The source stores \<open>rtc::TimeSince(rec_start_time_)\<close>, an \<open>int64_t\<close>, in a \<open>size_t\<close>
  and compares it, unsigned, with the threshold.\<close>

definition StopRecording :: "nat \<Rightarrow> AudioDeviceBuffer \<Rightarrow> AudioDeviceBuffer" where
  "StopRecording now s =
     (if \<not> recording s then s
      else let s1 = s\<lparr>recording := False\<rparr>;
               s2 = (if \<not> playing s1 then StopPeriodicLogging s1 else s1);
               time_since_start = (TimeSince now (rec_start_time s2) :: size_t)
           in if kMinValidCallTimeTimeInMilliseconds < time_since_start
              then s2\<lparr>trace := trace s2 @ [Histogram_RecordedOnlyZeros (only_silence_recorded s2)]\<rparr>
              else s2)"

subsection \<open>Configuration\<close>

definition SetRecordingSampleRate :: "uint32_t \<Rightarrow> AudioDeviceBuffer \<Rightarrow> int32_t \<times> AudioDeviceBuffer" where
  "SetRecordingSampleRate fsHz s = (0, s\<lparr>rec_sample_rate := fsHz\<rparr>)"

definition SetPlayoutSampleRate :: "uint32_t \<Rightarrow> AudioDeviceBuffer \<Rightarrow> int32_t \<times> AudioDeviceBuffer" where
  "SetPlayoutSampleRate fsHz s = (0, s\<lparr>play_sample_rate := fsHz\<rparr>)"

definition RecordingSampleRate :: "AudioDeviceBuffer \<Rightarrow> int32_t" where
  "RecordingSampleRate s = rec_sample_rate s"

definition PlayoutSampleRate :: "AudioDeviceBuffer \<Rightarrow> int32_t" where
  "PlayoutSampleRate s = play_sample_rate s"

definition SetRecordingChannels :: "size_t \<Rightarrow> AudioDeviceBuffer \<Rightarrow> int32_t \<times> AudioDeviceBuffer" where
  "SetRecordingChannels channels s = (0, s\<lparr>rec_channels := channels\<rparr>)"

definition SetPlayoutChannels :: "size_t \<Rightarrow> AudioDeviceBuffer \<Rightarrow> int32_t \<times> AudioDeviceBuffer" where
  "SetPlayoutChannels channels s = (0, s\<lparr>play_channels := channels\<rparr>)"

definition SetRecordingChannel ::
  "bool \<Rightarrow> ChannelType \<Rightarrow> AudioDeviceBuffer \<Rightarrow> fault + (int32_t \<times> AudioDeviceBuffer)" where
  "SetRecordingChannel dcheck_is_on channel s =
     (if dcheck_is_on \<and> channel \<noteq> kChannelBoth then Inl DCheckFailure
      else Inr (- 1, s))"

definition RecordingChannel :: "AudioDeviceBuffer \<Rightarrow> int32_t" where
  "RecordingChannel s = - 1"

definition RecordingChannels :: "AudioDeviceBuffer \<Rightarrow> size_t" where
  "RecordingChannels s = rec_channels s"

definition PlayoutChannels :: "AudioDeviceBuffer \<Rightarrow> size_t" where
  "PlayoutChannels s = play_channels s"

definition SetCurrentMicLevel :: "uint32_t \<Rightarrow> AudioDeviceBuffer \<Rightarrow> int32_t \<times> AudioDeviceBuffer" where
  "SetCurrentMicLevel level s = (0, s\<lparr>current_mic_level := level\<rparr>)"

definition SetTypingStatus :: "bool \<Rightarrow> AudioDeviceBuffer \<Rightarrow> int32_t \<times> AudioDeviceBuffer" where
  "SetTypingStatus status s = (0, s\<lparr>typing_status := status\<rparr>)"

definition NewMicLevel :: "AudioDeviceBuffer \<Rightarrow> uint32_t" where
  "NewMicLevel s = new_mic_level s"

definition SetVQEData :: "int32_t \<Rightarrow> int32_t \<Rightarrow> int32_t \<Rightarrow> AudioDeviceBuffer \<Rightarrow> AudioDeviceBuffer" where
  "SetVQEData play_delay rec_delay drift s =
     s\<lparr>play_delay_ms := play_delay, rec_delay_ms := rec_delay, clock_drift := drift\<rparr>"

definition StartInputFileRecording :: "string \<Rightarrow> AudioDeviceBuffer \<Rightarrow> int32_t" where
  "StartInputFileRecording fileName s = 0"

definition StopInputFileRecording :: "AudioDeviceBuffer \<Rightarrow> int32_t" where
  "StopInputFileRecording s = 0"

definition StartOutputFileRecording :: "string \<Rightarrow> AudioDeviceBuffer \<Rightarrow> int32_t" where
  "StartOutputFileRecording fileName s = 0"

definition StopOutputFileRecording :: "AudioDeviceBuffer \<Rightarrow> int32_t" where
  "StopOutputFileRecording s = 0"

subsection \<open>The recording side\<close>

text \<open>\<open>audio_buffer\<close> is the list of the samples that can be read at the pointer the
  caller passes. Copying more than it holds is the fault \<open>OutOfBoundsRead\<close>, and so is a
  peak measurement over more samples than the buffer of the object holds.\<close>

definition SetRecordedBuffer ::
  "bool \<Rightarrow> int16_t list \<Rightarrow> size_t \<Rightarrow> AudioDeviceBuffer \<Rightarrow> fault + (int32_t \<times> AudioDeviceBuffer)" where
  "SetRecordedBuffer dcheck_is_on audio_buffer num_samples s =
     (let size_in_bytes = num_samples * rec_channels s * 2 in
      if length audio_buffer < unat size_in_bytes div 2 then Inl OutOfBoundsRead
      else
        let s1 = s\<lparr>rec_buffer := Buffer_SetData audio_buffer size_in_bytes\<rparr> in
        if dcheck_is_on \<and> \<not> rec_stat_count s1 < 50 then Inl DCheckFailure
        else if 50 \<le> rec_stat_count s1 + 1 then
          (let size = num_samples * rec_channels s1 in
           if length (rec_buffer s1) < unat size then Inl OutOfBoundsRead
           else
             let max_abs = WebRtcSpl_MaxAbsValueW16 (take (unat size) (rec_buffer s1));
                 s2 = s1\<lparr>rec_stat_count := 0,
                         trace := trace s1 @ [Rec_MaxAbsValueW16 max_abs]\<rparr>;
                 s3 = (if 0 < sint max_abs then s2\<lparr>only_silence_recorded := False\<rparr> else s2)
             in Inr (0, PostTask (Task_UpdateRecStats max_abs num_samples) s3))
        else
          Inr (0, PostTask (Task_UpdateRecStats 0 num_samples)
                    (s1\<lparr>rec_stat_count := rec_stat_count s1 + 1\<rparr>)))"

text \<open>The sum of the two delays, two \<open>int\<close>, is stored in a \<open>uint32_t\<close>: it is taken
  modulo 2^32. The division that gives the number of samples faults when the channel
  count makes \<open>rec_bytes_per_sample\<close> zero.\<close>

definition DeliverRecordedData ::
  "RecordedData_reply \<Rightarrow> AudioDeviceBuffer \<Rightarrow> fault + (int32_t \<times> AudioDeviceBuffer)" where
  "DeliverRecordedData reply s =
     (if audio_transport_cb s = None then Inr (0, s)
      else
        let rec_bytes_per_sample = rec_channels s * 2;
            total_delay_ms = (play_delay_ms s + rec_delay_ms s :: uint32_t)
        in if rec_bytes_per_sample = 0 then Inl DivideByZero
           else
             let num_samples = Buffer_size (rec_buffer s) div rec_bytes_per_sample;
                 s1 = s\<lparr>trace := trace s @ [Call_RecordedDataIsAvailable
                        \<lparr> rd_audioSamples = rec_buffer s,
                          rd_nSamples = num_samples,
                          rd_nBytesPerSample = rec_bytes_per_sample,
                          rd_nChannels = rec_channels s,
                          rd_samplesPerSec = rec_sample_rate s,
                          rd_totalDelayMS = total_delay_ms,
                          rd_clockDrift = clock_drift s,
                          rd_currentMicLevel = current_mic_level s,
                          rd_keyPressed = typing_status s \<rparr>]\<rparr>
             in if rd_res reply \<noteq> - 1
                then Inr (0, s1\<lparr>new_mic_level := rd_newMicLevel reply\<rparr>)
                else Inr (0, s1))"

subsection \<open>The playout side\<close>

text \<open>The transport writes into the memory of the playout buffer: the samples of its
  reply replace the front of the buffer, whose size stays.\<close>

definition transport_write :: "int16_t list \<Rightarrow> int16_t list \<Rightarrow> int16_t list" where
  "transport_write written b = take (length b) (written @ drop (length written) b)"

definition RequestPlayoutData ::
  "bool \<Rightarrow> PlayData_reply \<Rightarrow> size_t \<Rightarrow> AudioDeviceBuffer \<Rightarrow> fault + (int32_t \<times> AudioDeviceBuffer)" where
  "RequestPlayoutData dcheck_is_on reply num_samples s =
     (let play_bytes_per_sample = play_channels s * 2;
          size_in_bytes = num_samples * play_bytes_per_sample;
          s1 = (if Buffer_size (play_buffer s) \<noteq> size_in_bytes
                then s\<lparr>play_buffer := Buffer_SetSize size_in_bytes (play_buffer s)\<rparr>
                else s)
      in if audio_transport_cb s1 = None then Inr (0, s1)
         else
           let s2 = s1\<lparr>trace := trace s1 @ [Call_NeedMorePlayData
                          \<lparr> pd_nSamples = num_samples,
                            pd_nBytesPerSample = play_bytes_per_sample,
                            pd_nChannels = play_channels s1,
                            pd_samplesPerSec = play_sample_rate s1 \<rparr>],
                        play_buffer := transport_write (pd_written reply) (play_buffer s1)\<rparr>;
               num_samples_out = pd_nSamplesOut reply
           in if dcheck_is_on \<and> \<not> play_stat_count s2 < 50 then Inl DCheckFailure
              else if 50 \<le> play_stat_count s2 + 1 then
                (let size = num_samples * play_channels s2 in
                 if length (play_buffer s2) < unat size then Inl OutOfBoundsRead
                 else
                   let max_abs = WebRtcSpl_MaxAbsValueW16 (take (unat size) (play_buffer s2));
                       s3 = s2\<lparr>play_stat_count := 0,
                               trace := trace s2 @ [Play_MaxAbsValueW16 max_abs]\<rparr>
                   in Inr (ucast num_samples_out,
                           PostTask (Task_UpdatePlayStats max_abs num_samples_out) s3))
              else
                Inr (ucast num_samples_out,
                     PostTask (Task_UpdatePlayStats 0 num_samples_out)
                       (s2\<lparr>play_stat_count := play_stat_count s2 + 1\<rparr>)))"

text \<open>\<open>GetPlayoutData\<close> leaves the object as it is; it returns the frame count and what
  \<open>memcpy\<close> wrote to the caller's \<open>audio_buffer\<close>.\<close>

definition GetPlayoutData ::
  "bool \<Rightarrow> AudioDeviceBuffer \<Rightarrow> fault + (int32_t \<times> int16_t list)" where
  "GetPlayoutData dcheck_is_on s =
     (if dcheck_is_on \<and> \<not> 0 < Buffer_size (play_buffer s) then Inl DCheckFailure
      else
        let play_bytes_per_sample = play_channels s * 2 in
        if play_bytes_per_sample = 0 then Inl DivideByZero
        else Inr (ucast (Buffer_size (play_buffer s) div play_bytes_per_sample),
                  play_buffer s))"

subsection \<open>Statistics, on the task queue\<close>

definition ResetRecStats :: "AudioDeviceBuffer \<Rightarrow> AudioDeviceBuffer" where
  "ResetRecStats s =
     s\<lparr>rec_callbacks := 0, last_rec_callbacks := 0, rec_samples := 0,
       last_rec_samples := 0, max_rec_level := 0\<rparr>"

definition ResetPlayStats :: "AudioDeviceBuffer \<Rightarrow> AudioDeviceBuffer" where
  "ResetPlayStats s =
     s\<lparr>play_callbacks := 0, last_play_callbacks := 0, play_samples := 0,
       last_play_samples := 0, max_play_level := 0\<rparr>"

definition UpdateRecStats :: "int16_t \<Rightarrow> size_t \<Rightarrow> AudioDeviceBuffer \<Rightarrow> AudioDeviceBuffer" where
  "UpdateRecStats max_abs num_samples s =
     (let s1 = s\<lparr>rec_callbacks := rec_callbacks s + 1,
                 rec_samples := rec_samples s + unat num_samples\<rparr>
      in if sint (max_rec_level s1) < sint max_abs then s1\<lparr>max_rec_level := max_abs\<rparr> else s1)"

definition UpdatePlayStats :: "int16_t \<Rightarrow> size_t \<Rightarrow> AudioDeviceBuffer \<Rightarrow> AudioDeviceBuffer" where
  "UpdatePlayStats max_abs num_samples s =
     (let s1 = s\<lparr>play_callbacks := play_callbacks s + 1,
                 play_samples := play_samples s + unat num_samples\<rparr>
      in if sint (max_play_level s1) < sint max_abs then s1\<lparr>max_play_level := max_abs\<rparr> else s1)"

text \<open>\<open>LogStats\<close> reads the clock twice: \<open>clock\<close> on entry and \<open>clock2\<close> before it posts
  the next round, which is then due \<open>time_to_wait_ms\<close> after \<open>clock2\<close>.\<close>

definition LogStats ::
  "bool \<Rightarrow> LogState \<Rightarrow> nat \<Rightarrow> nat \<Rightarrow> AudioDeviceBuffer \<Rightarrow> fault + AudioDeviceBuffer" where
  "LogStats dcheck_is_on state clock clock2 s =
     (let now_time = TimeMillis clock in
      if state = LOG_STOP then Inr s
      else
        let s1 = (if state = LOG_START
                  then s\<lparr>num_stat_reports := 0, last_timer_task_time := now_time\<rparr>
                  else s);
            next_callback_time = now_time + kTimerIntervalInMilliseconds;
            time_since_last = TimeDiff now_time (last_timer_task_time s1);
            s2 = s1\<lparr>last_timer_task_time := now_time,
                    num_stat_reports := num_stat_reports s1 + 1\<rparr>;
            s3 = (if 1 < num_stat_reports s2 \<and> 0 < sint time_since_last
                  then s2\<lparr>trace := trace s2 @
                         [Log_REC \<lparr> sl_time_since_last = time_since_last,
                                    sl_sample_rate_kHz = rec_sample_rate s2 div 1000,
                                    sl_callbacks = of_nat (rec_callbacks s2) - of_nat (last_rec_callbacks s2),
                                    sl_samples = of_nat (rec_samples s2) - of_nat (last_rec_samples s2),
                                    sl_level = max_rec_level s2 \<rparr>,
                          Log_PLAY \<lparr> sl_time_since_last = time_since_last,
                                     sl_sample_rate_kHz = play_sample_rate s2 div 1000,
                                     sl_callbacks = of_nat (play_callbacks s2) - of_nat (last_play_callbacks s2),
                                     sl_samples = of_nat (play_samples s2) - of_nat (last_play_samples s2),
                                     sl_level = max_play_level s2 \<rparr>]\<rparr>
                  else s2);
            s4 = s3\<lparr>last_rec_callbacks := rec_callbacks s3,
                    last_play_callbacks := play_callbacks s3,
                    last_rec_samples := rec_samples s3,
                    last_play_samples := play_samples s3,
                    max_rec_level := 0, max_play_level := 0\<rparr>;
            time_to_wait_ms = next_callback_time - TimeMillis clock2
        in if dcheck_is_on \<and> \<not> 0 < sint time_to_wait_ms then Inl DCheckFailure
           else Inr (PostDelayedTask clock2 (Task_LogStats LOG_ACTIVE) (ucast time_to_wait_ms) s4))"

text \<open>What a posted closure does when the task queue runs it at the time \<open>clock\<close>. A
  task runs in no time: both clock readings of \<open>LogStats\<close> are \<open>clock\<close>.\<close>

definition run_task :: "bool \<Rightarrow> nat \<Rightarrow> task \<Rightarrow> AudioDeviceBuffer \<Rightarrow> fault + AudioDeviceBuffer" where
  "run_task dcheck_is_on clock t s =
     (case t of
        Task_ResetRecStats \<Rightarrow> Inr (ResetRecStats s)
      | Task_ResetPlayStats \<Rightarrow> Inr (ResetPlayStats s)
      | Task_UpdateRecStats max_abs num_samples \<Rightarrow> Inr (UpdateRecStats max_abs num_samples s)
      | Task_UpdatePlayStats max_abs num_samples \<Rightarrow> Inr (UpdatePlayStats max_abs num_samples s)
      | Task_LogStats state \<Rightarrow> LogStats dcheck_is_on state clock clock s)"

subsection \<open>Running the task queue\<close>

text \<open>Modelled from the spec: the loop of \<open>rtc::TaskQueue\<close> (not among the sources), a
  "single-threaded cooperative execution context processing deferred tasks strictly in
  order". \<open>run_pending\<close> runs, at the time \<open>clock\<close>, the tasks that were posted without a
  delay, first posted first. \<open>run_timers\<close> runs every delayed task that is due at the time
  \<open>until\<close> or before it, each at the time it is due. \<open>run_for\<close> lets the queue run from the
  time \<open>t0\<close> for the duration \<open>T\<close>: the clock goes from \<open>t0\<close> to \<open>t0 + T\<close>, and every task
  that is due by then has run, the one due at exactly \<open>t0 + T\<close> included. The duration
  is any number of milliseconds, so that what is stated of \<open>run_for\<close> for every \<open>T\<close> gives
  the times at which things happen and does not hang on which end of the interval is
  counted: what has happened strictly before \<open>t0 + T\<close> is what \<open>run_for\<close> gives for
  \<open>T - 1\<close>.\<close>

fun run_tasks :: "bool \<Rightarrow> nat \<Rightarrow> task list \<Rightarrow> AudioDeviceBuffer \<Rightarrow> fault + AudioDeviceBuffer" where
  "run_tasks dcheck_is_on clock [] s = Inr s"
| "run_tasks dcheck_is_on clock (t # ts) s =
     (case run_task dcheck_is_on clock t s of
        Inl f \<Rightarrow> Inl f
      | Inr s' \<Rightarrow> run_tasks dcheck_is_on clock ts s')"

definition run_pending :: "bool \<Rightarrow> nat \<Rightarrow> AudioDeviceBuffer \<Rightarrow> fault + AudioDeviceBuffer" where
  "run_pending dcheck_is_on clock s =
     run_tasks dcheck_is_on clock (task_queue s) (s\<lparr>task_queue := []\<rparr>)"

definition timers_left :: "nat \<Rightarrow> (nat \<times> task) list \<Rightarrow> nat" where
  "timers_left until ts = sum_list (map (\<lambda>x. Suc until - fst x) ts)"

lemma timers_left_insert_timer:
  "timers_left until (insert_timer x ts) = (Suc until - fst x) + timers_left until ts"
  by (induction ts) (auto simp: timers_left_def)

lemma LogStats_delayed_tasks:
  "LogStats d st c c s = Inr s' \<Longrightarrow>
     delayed_tasks s' = delayed_tasks s \<or>
     delayed_tasks s' = insert_timer (c + 10000, Task_LogStats LOG_ACTIVE) (delayed_tasks s)"
  by (auto simp: LogStats_def Let_def PostDelayedTask_def kTimerIntervalInMilliseconds_def
      kTimerIntervalInSeconds_def kNumMillisecsPerSec_def split: if_splits)

lemma run_task_delayed_tasks:
  "run_task d c t s = Inr s' \<Longrightarrow>
     delayed_tasks s' = delayed_tasks s \<or>
     delayed_tasks s' = insert_timer (c + 10000, Task_LogStats LOG_ACTIVE) (delayed_tasks s)"
  by (cases t) (auto simp: run_task_def ResetRecStats_def ResetPlayStats_def UpdateRecStats_def
      UpdatePlayStats_def Let_def dest: LogStats_delayed_tasks)

function run_timers :: "bool \<Rightarrow> nat \<Rightarrow> AudioDeviceBuffer \<Rightarrow> fault + AudioDeviceBuffer" where
  "run_timers dcheck_is_on until s =
     (case delayed_tasks s of
        [] \<Rightarrow> Inr s
      | (due, t) # rest \<Rightarrow>
          if due \<le> until then
            (case run_task dcheck_is_on due t (s\<lparr>delayed_tasks := rest\<rparr>) of
               Inl f \<Rightarrow> Inl f
             | Inr s' \<Rightarrow> run_timers dcheck_is_on until s')
          else Inr s)"
  by pat_completeness auto
termination
proof (relation "measure (\<lambda>(d, until, s). timers_left until (delayed_tasks s))")
  show "wf (measure (\<lambda>(d, until, s). timers_left until (delayed_tasks s)))" by simp
next
  fix dcheck_is_on until s x21 x22 x y s'
  assume a: "delayed_tasks s = x21 # x22" "(x, y) = x21" "x \<le> until"
    "run_task dcheck_is_on x y (s\<lparr>delayed_tasks := x22\<rparr>) = Inr s'"
  from run_task_delayed_tasks[OF a(4)]
  have "timers_left until (delayed_tasks s') \<le> (Suc until - (x + 10000)) + timers_left until x22"
    by (auto simp: timers_left_insert_timer)
  moreover have "timers_left until (delayed_tasks s) = (Suc until - x) + timers_left until x22"
    using a(1,2) by (auto simp: timers_left_def)
  ultimately show "((dcheck_is_on, until, s'), (dcheck_is_on, until, s))
      \<in> measure (\<lambda>(d, until, s). timers_left until (delayed_tasks s))"
    using a(3) by simp
qed

declare run_timers.simps [simp del]

lemma run_timers_idle: "delayed_tasks s = [] \<Longrightarrow> run_timers d until s = Inr s"
  by (subst run_timers.simps) simp





subsection \<open>Sequences of calls\<close>

text \<open>A sequence of \<open>SetRecordedBuffer\<close> calls, each with the samples at its pointer and
  its frame count, and a sequence of \<open>RequestPlayoutData\<close> calls, each with the reply of
  the transport and its frame count. A fault ends the sequence.\<close>

fun SetRecordedBuffer_calls ::
  "bool \<Rightarrow> (int16_t list \<times> size_t) list \<Rightarrow> AudioDeviceBuffer \<Rightarrow> fault + AudioDeviceBuffer" where
  "SetRecordedBuffer_calls dcheck_is_on [] s = Inr s"
| "SetRecordedBuffer_calls dcheck_is_on (c # cs) s =
     (case SetRecordedBuffer dcheck_is_on (fst c) (snd c) s of
        Inl f \<Rightarrow> Inl f
      | Inr rs \<Rightarrow> SetRecordedBuffer_calls dcheck_is_on cs (snd rs))"

fun RequestPlayoutData_calls ::
  "bool \<Rightarrow> (PlayData_reply \<times> size_t) list \<Rightarrow> AudioDeviceBuffer \<Rightarrow> fault + AudioDeviceBuffer" where
  "RequestPlayoutData_calls dcheck_is_on [] s = Inr s"
| "RequestPlayoutData_calls dcheck_is_on (c # cs) s =
     (case RequestPlayoutData dcheck_is_on (fst c) (snd c) s of
        Inl f \<Rightarrow> Inl f
      | Inr rs \<Rightarrow> RequestPlayoutData_calls dcheck_is_on cs (snd rs))"

text \<open>Any one step in the life of the object: a call of a member function that can
  change it, or the task queue running a task.\<close>

datatype step =
    Do_RegisterAudioCallback AudioTransport_ptr
  | Do_StartPlayout nat
  | Do_StartRecording nat
  | Do_StopPlayout
  | Do_StopRecording nat
  | Do_SetRecordingSampleRate uint32_t
  | Do_SetPlayoutSampleRate uint32_t
  | Do_SetRecordingChannels size_t
  | Do_SetPlayoutChannels size_t
  | Do_SetRecordingChannel ChannelType
  | Do_SetCurrentMicLevel uint32_t
  | Do_SetTypingStatus bool
  | Do_SetVQEData int32_t int32_t int32_t
  | Do_SetRecordedBuffer "int16_t list" size_t
  | Do_DeliverRecordedData RecordedData_reply
  | Do_RequestPlayoutData PlayData_reply size_t
  | Do_GetPlayoutData
  | Do_run_task nat task

definition exec_step :: "bool \<Rightarrow> step \<Rightarrow> AudioDeviceBuffer \<Rightarrow> fault + AudioDeviceBuffer" where
  "exec_step dcheck_is_on c s =
     (case c of
        Do_RegisterAudioCallback cb \<Rightarrow> Inr (snd (RegisterAudioCallback cb s))
      | Do_StartPlayout now \<Rightarrow> Inr (StartPlayout now s)
      | Do_StartRecording now \<Rightarrow> Inr (StartRecording now s)
      | Do_StopPlayout \<Rightarrow> Inr (StopPlayout s)
      | Do_StopRecording now \<Rightarrow> Inr (StopRecording now s)
      | Do_SetRecordingSampleRate fsHz \<Rightarrow> Inr (snd (SetRecordingSampleRate fsHz s))
      | Do_SetPlayoutSampleRate fsHz \<Rightarrow> Inr (snd (SetPlayoutSampleRate fsHz s))
      | Do_SetRecordingChannels channels \<Rightarrow> Inr (snd (SetRecordingChannels channels s))
      | Do_SetPlayoutChannels channels \<Rightarrow> Inr (snd (SetPlayoutChannels channels s))
      | Do_SetRecordingChannel channel \<Rightarrow> map_sum id snd (SetRecordingChannel dcheck_is_on channel s)
      | Do_SetCurrentMicLevel level \<Rightarrow> Inr (snd (SetCurrentMicLevel level s))
      | Do_SetTypingStatus status \<Rightarrow> Inr (snd (SetTypingStatus status s))
      | Do_SetVQEData p r d \<Rightarrow> Inr (SetVQEData p r d s)
      | Do_SetRecordedBuffer audio_buffer num_samples \<Rightarrow>
          map_sum id snd (SetRecordedBuffer dcheck_is_on audio_buffer num_samples s)
      | Do_DeliverRecordedData reply \<Rightarrow> map_sum id snd (DeliverRecordedData reply s)
      | Do_RequestPlayoutData reply num_samples \<Rightarrow>
          map_sum id snd (RequestPlayoutData dcheck_is_on reply num_samples s)
      | Do_GetPlayoutData \<Rightarrow> map_sum id (\<lambda>r. s) (GetPlayoutData dcheck_is_on s)
      | Do_run_task clock t \<Rightarrow> run_task dcheck_is_on clock t s)"


subsection \<open>Reading the trace and the task queue\<close>

text \<open>The peaks measured on the recording side and on the playout side, the values sent
  to the histogram, the statistics lines printed for each direction, and the arguments
  of the statistics updates waiting in the task queue.\<close>

definition rec_peaks :: "event list \<Rightarrow> int16_t list" where
  "rec_peaks tr = concat (map (\<lambda>e. case e of Rec_MaxAbsValueW16 m \<Rightarrow> [m] | _ \<Rightarrow> []) tr)"

definition play_peaks :: "event list \<Rightarrow> int16_t list" where
  "play_peaks tr = concat (map (\<lambda>e. case e of Play_MaxAbsValueW16 m \<Rightarrow> [m] | _ \<Rightarrow> []) tr)"

definition histograms :: "event list \<Rightarrow> bool list" where
  "histograms tr = concat (map (\<lambda>e. case e of Histogram_RecordedOnlyZeros b \<Rightarrow> [b] | _ \<Rightarrow> []) tr)"

definition rec_logs :: "event list \<Rightarrow> stats_line list" where
  "rec_logs tr = concat (map (\<lambda>e. case e of Log_REC l \<Rightarrow> [l] | _ \<Rightarrow> []) tr)"

definition play_logs :: "event list \<Rightarrow> stats_line list" where
  "play_logs tr = concat (map (\<lambda>e. case e of Log_PLAY l \<Rightarrow> [l] | _ \<Rightarrow> []) tr)"

definition rec_updates :: "task list \<Rightarrow> (int16_t \<times> size_t) list" where
  "rec_updates q = concat (map (\<lambda>t. case t of Task_UpdateRecStats m n \<Rightarrow> [(m, n)] | _ \<Rightarrow> []) q)"

definition play_updates :: "task list \<Rightarrow> (int16_t \<times> size_t) list" where
  "play_updates q = concat (map (\<lambda>t. case t of Task_UpdatePlayStats m n \<Rightarrow> [(m, n)] | _ \<Rightarrow> []) q)"

text \<open>Which calls measure a peak, and over which samples. \<open>measuring_call c0 i\<close>: of a
  sequence of calls that starts with the counter (\<open>rec_stat_count_\<close> or
  \<open>play_stat_count_\<close>) at \<open>c0\<close>, the call number \<open>i\<close>, counted from 0, is one that brings
  the counter to 50. \<open>measured_samples channels (audio_buffer, num_samples)\<close>: the samples
  that \<open>SetRecordedBuffer\<close> copies and then hands to \<open>WebRtcSpl_MaxAbsValueW16\<close>.\<close>

definition measuring_call :: "nat \<Rightarrow> nat \<Rightarrow> bool" where
  "measuring_call c0 i = ((c0 + i + 1) mod 50 = 0)"

definition measured_samples :: "size_t \<Rightarrow> int16_t list \<times> size_t \<Rightarrow> int16_t list" where
  "measured_samples channels c =
     take (unat (snd c * channels)) (Buffer_SetData (fst c) (snd c * channels * 2))"

section \<open>Properties\<close>

subsection \<open>Arithmetic on machine words, buffers and peaks\<close>

lemma even_unat_times_2: "even (unat (x * 2 :: size_t))"
proof -
  have "(2::nat) dvd 18446744073709551616" by simp
  then show ?thesis by (simp add: unat_word_ariths dvd_mod_iff)
qed

lemma Buffer_size_SetSize: "Buffer_size (Buffer_SetSize (x * 2) b) = x * 2"
proof -
  have "2 * (unat (x * 2) div 2) = unat (x * 2)"
    using even_unat_times_2[of x] by simp
  moreover have "length (Buffer_SetSize (x * 2) b) = unat (x * 2) div 2"
    by (simp add: Buffer_SetSize_def)
  ultimately show ?thesis by (simp add: Buffer_size_def)
qed


lemma fold_max_abs_ge: "a \<le> fold (\<lambda>x m. max \<bar>sint x\<bar> m) (v :: int16_t list) a"
proof (induction v arbitrary: a)
  case Nil
  then show ?case by simp
next
  case (Cons x v)
  have "a \<le> max \<bar>sint x\<bar> a" by simp
  also have "\<dots> \<le> fold (\<lambda>x m. max \<bar>sint x\<bar> m) v (max \<bar>sint x\<bar> a)" by (rule Cons.IH)
  finally show ?case by simp
qed

lemma sint_eq_0: "sint (x :: int16_t) = 0 \<longleftrightarrow> x = 0"
  by (rule signed_eq_0_iff)

lemma fold_max_abs_pos:
  "0 \<le> a \<Longrightarrow>
   0 < fold (\<lambda>x m. max \<bar>sint x\<bar> m) (v :: int16_t list) a \<longleftrightarrow> 0 < a \<or> (\<exists>x\<in>set v. x \<noteq> 0)"
proof (induction v arbitrary: a)
  case Nil
  then show ?case by simp
next
  case (Cons x v)
  have "0 < max \<bar>sint x\<bar> a \<longleftrightarrow> 0 < a \<or> x \<noteq> 0"
    using Cons.prems sint_eq_0[of x] by (auto simp: max_def)
  moreover have "0 \<le> max \<bar>sint x\<bar> a" using Cons.prems by simp
  ultimately show ?case using Cons.IH[of "max \<bar>sint x\<bar> a"] by auto
qed

lemma max_abs_int_pos: "0 < max_abs_int v \<longleftrightarrow> (\<exists>x\<in>set v. x \<noteq> 0)"
  using fold_max_abs_pos[of 0 v] by (simp add: max_abs_int_def)

lemma max_abs_int_nonneg: "0 \<le> max_abs_int v"
  using fold_max_abs_ge[of 0 v] by (simp add: max_abs_int_def)

lemma sint_MaxAbsValueW16: "sint (WebRtcSpl_MaxAbsValueW16 v) = min 32767 (max_abs_int v)"
proof -
  have "0 \<le> min 32767 (max_abs_int v)" "min 32767 (max_abs_int v) < 2 ^ 15"
    using max_abs_int_nonneg[of v] by auto
  then show ?thesis
    unfolding WebRtcSpl_MaxAbsValueW16_def
    by (simp add: sint_sbintrunc' signed_take_bit_int_eq_self)
qed

lemma MaxAbsValueW16_pos: "0 < sint (WebRtcSpl_MaxAbsValueW16 v) \<longleftrightarrow> (\<exists>x\<in>set v. x \<noteq> 0)"
  using max_abs_int_pos[of v] by (simp add: sint_MaxAbsValueW16)

lemma MaxAbsValueW16_zero: "WebRtcSpl_MaxAbsValueW16 v = 0 \<longleftrightarrow> (\<forall>x\<in>set v. x = 0)"
proof -
  have "WebRtcSpl_MaxAbsValueW16 v = 0 \<longleftrightarrow> sint (WebRtcSpl_MaxAbsValueW16 v) = 0"
    by (simp only: sint_eq_0)
  also have "\<dots> \<longleftrightarrow> \<not> 0 < max_abs_int v"
    using max_abs_int_nonneg[of v] by (auto simp: sint_MaxAbsValueW16)
  finally show ?thesis by (auto simp: max_abs_int_pos)
qed

subsection \<open>Frame counts that fit the machine words\<close>

lemma unat_frames:
  assumes "unat (n :: size_t) * unat (c :: size_t) * 2 < 2 ^ 64"
  shows "unat (n * c) = unat n * unat c"
    and "unat (n * c * 2) = unat n * unat c * 2"
    and "unat (n * (c * 2)) = unat n * unat c * 2"
proof -
  have a: "unat n * unat c < 2 ^ 64" using assms by linarith
  show 1: "unat (n * c) = unat n * unat c"
    using a by (simp add: unat_word_ariths)
  show 2: "unat (n * c * 2) = unat n * unat c * 2"
    using assms 1 by (simp add: unat_word_ariths)
  show "unat (n * (c * 2)) = unat n * unat c * 2"
    using 2 by (simp add: mult.assoc)
qed

lemma unat_bytes_per_sample:
  assumes "unat (n :: size_t) * unat (c :: size_t) * 2 < 2 ^ 64" and "0 < n"
  shows "unat (c * 2) = unat c * 2"
proof -
  have "0 < unat n" using assms(2) by (simp add: word_less_nat_alt)
  then have "unat c * 2 \<le> unat n * unat c * 2" by simp
  then have "unat c * 2 < 2 ^ 64" using assms(1) by linarith
  then show ?thesis by (simp add: unat_word_ariths)
qed

lemma frames_div:
  assumes "unat (n :: size_t) * unat (c :: size_t) * 2 < 2 ^ 64" and "0 < n" and "0 < c"
  shows "(n * c * 2) div (c * 2) = n" and "c * 2 \<noteq> 0" and "n * c * 2 \<noteq> 0"
proof -
  have c: "0 < unat c" and n: "0 < unat n" using assms(2,3) by (simp_all add: word_less_nat_alt)
  have "unat ((n * c * 2) div (c * 2)) = (unat n * unat c * 2) div (unat c * 2)"
    using unat_frames(2)[OF assms(1)] unat_bytes_per_sample[OF assms(1,2)]
    by (simp add: unat_div)
  also have "\<dots> = unat n" using c by simp
  finally show "(n * c * 2) div (c * 2) = n" by (simp add: word_unat_eq_iff)
  have "unat (c * 2) \<noteq> 0" using unat_bytes_per_sample[OF assms(1,2)] c by simp
  then show "c * 2 \<noteq> 0" by (metis unat_0)
  have "unat (n * c * 2) \<noteq> 0" using unat_frames(2)[OF assms(1)] c n by simp
  then show "n * c * 2 \<noteq> 0" by (metis unat_0)
qed

subsection \<open>Registering the transport\<close>

text \<open>Claim C6. \<open>RegisterAudioCallback\<close> returns an error exactly when playout or
  recording is active, and then leaves the object, with its transport, as it was;
  otherwise it returns 0 and the stored transport is the argument, a null pointer
  included.\<close>

theorem RegisterAudioCallback_fails_iff_active:
  "(fst (RegisterAudioCallback cb s) \<noteq> 0 \<longleftrightarrow> playing s \<or> recording s) \<and>
   (playing s \<or> recording s \<longrightarrow> RegisterAudioCallback cb s = (- 1, s)) \<and>
   (\<not> (playing s \<or> recording s) \<longrightarrow>
      RegisterAudioCallback cb s = (0, s\<lparr>audio_transport_cb := cb\<rparr>) \<and>
      audio_transport_cb (snd (RegisterAudioCallback cb s)) = cb)"
  by (simp add: RegisterAudioCallback_def)

theorem RegisterAudioCallback_fails_iff_active_witness:
  "RegisterAudioCallback (Some 1) AudioDeviceBuffer_ctor
     = (0, AudioDeviceBuffer_ctor\<lparr>audio_transport_cb := Some 1\<rparr>) \<and>
   RegisterAudioCallback None (AudioDeviceBuffer_ctor\<lparr>audio_transport_cb := Some 1\<rparr>)
     = (0, AudioDeviceBuffer_ctor\<lparr>audio_transport_cb := None\<rparr>) \<and>
   RegisterAudioCallback (Some 2) (StartRecording 0 AudioDeviceBuffer_ctor)
     = (- 1, StartRecording 0 AudioDeviceBuffer_ctor) \<and>
   audio_transport_cb (StartRecording 0 AudioDeviceBuffer_ctor) = None"
  using RegisterAudioCallback_fails_iff_active [of "Some 1" AudioDeviceBuffer_ctor]
    RegisterAudioCallback_fails_iff_active [of None "AudioDeviceBuffer_ctor\<lparr>audio_transport_cb := Some 1\<rparr>"]
    RegisterAudioCallback_fails_iff_active [of "Some 2" "StartRecording 0 AudioDeviceBuffer_ctor"]
  by (simp add: AudioDeviceBuffer_ctor_def StartRecording_def Let_def PostTask_def
      StartPeriodicLogging_def)

subsection \<open>The legacy channel selection\<close>

text \<open>Claim C9, as stated, fails: \<open>SetRecordingChannel\<close> does not return success for the
  "both channels" value. With the checks on and with the checks off it returns -1.\<close>

theorem SetRecordingChannel_both_fails:
  "SetRecordingChannel True kChannelBoth AudioDeviceBuffer_ctor = Inr (- 1, AudioDeviceBuffer_ctor) \<and>
   SetRecordingChannel False kChannelBoth AudioDeviceBuffer_ctor = Inr (- 1, AudioDeviceBuffer_ctor) \<and>
   (- 1 :: int32_t) \<noteq> 0"
  by (simp add: SetRecordingChannel_def)

text \<open>Claim C9, amended. \<open>SetRecordingChannel\<close> never changes the object and never
  returns success. For the "both channels" value it returns -1. For any other value it
  returns -1 when the checks are off and stops at the failed \<open>RTC_DCHECK_EQ\<close> when they
  are on.\<close>

theorem SetRecordingChannel_never_succeeds:
  "SetRecordingChannel d kChannelBoth s = Inr (- 1, s) \<and>
   (channel \<noteq> kChannelBoth \<longrightarrow>
      SetRecordingChannel False channel s = Inr (- 1, s) \<and>
      SetRecordingChannel True channel s = Inl DCheckFailure) \<and>
   (\<forall>r s'. SetRecordingChannel d channel s = Inr (r, s') \<longrightarrow> r = - 1 \<and> s' = s)"
  by (auto simp: SetRecordingChannel_def)

theorem SetRecordingChannel_never_succeeds_witness:
  "SetRecordingChannel True kChannelBoth AudioDeviceBuffer_ctor = Inr (- 1, AudioDeviceBuffer_ctor) \<and>
   SetRecordingChannel False kChannelLeft AudioDeviceBuffer_ctor = Inr (- 1, AudioDeviceBuffer_ctor) \<and>
   SetRecordingChannel True kChannelLeft AudioDeviceBuffer_ctor = Inl DCheckFailure"
  using SetRecordingChannel_never_succeeds [of True AudioDeviceBuffer_ctor kChannelLeft]
  by simp

subsection \<open>Requesting playout data without a transport\<close>

text \<open>Claim C7. Without a registered transport, \<open>RequestPlayoutData\<close> never faults and
  returns 0 frames, for every frame count. Of the object only the playout buffer may
  change, and its size in bytes is then frame count x channels x 2, the product as
  \<open>size_t\<close> computes it; the buffer holds that many bytes, two for each of its samples,
  when the product of the numbers fits 64 bits (as the size of the buffer before does).
  No task is posted, no counter moves and nothing is added to the trace.\<close>

theorem RequestPlayoutData_without_transport:
  assumes "audio_transport_cb s = None"
  shows "\<exists>b. RequestPlayoutData d reply num_samples s = Inr (0, s\<lparr>play_buffer := b\<rparr>) \<and>
           Buffer_size b = num_samples * play_channels s * 2 \<and>
           (2 * length (play_buffer s) < 2 ^ 64 \<and>
            unat num_samples * unat (play_channels s) * 2 < 2 ^ 64 \<longrightarrow>
              2 * length b = unat num_samples * unat (play_channels s) * 2)"
proof -
  let ?sz = "num_samples * (play_channels s * 2)"
  let ?b = "if Buffer_size (play_buffer s) \<noteq> ?sz
            then Buffer_SetSize ?sz (play_buffer s) else play_buffer s"
  have 1: "RequestPlayoutData d reply num_samples s = Inr (0, s\<lparr>play_buffer := ?b\<rparr>)"
    using assms by (simp add: RequestPlayoutData_def Let_def)
  have 2: "Buffer_size ?b = num_samples * play_channels s * 2"
    using Buffer_size_SetSize[of "num_samples * play_channels s" "play_buffer s"]
    by (simp add: mult.assoc)
  have 3: "2 * length ?b = unat num_samples * unat (play_channels s) * 2"
    if a: "2 * length (play_buffer s) < 2 ^ 64"
      and b: "unat num_samples * unat (play_channels s) * 2 < 2 ^ 64"
  proof -
    note u = unat_frames(3)[OF b]
    show ?thesis
    proof (cases "Buffer_size (play_buffer s) \<noteq> ?sz")
      case True
      have "2 * (unat ?sz div 2) = unat ?sz"
        using even_unat_times_2[of "num_samples * play_channels s"] by (simp add: mult.assoc)
      then show ?thesis using True u by (simp add: Buffer_SetSize_def)
    next
      case False
      have k: "unat (of_nat (2 * length (play_buffer s)) :: size_t) = 2 * length (play_buffer s)"
        using a by (subst unat_of_nat) simp
      from False have "Buffer_size (play_buffer s) = ?sz" by simp
      then have "(of_nat (2 * length (play_buffer s)) :: size_t) = ?sz"
        unfolding Buffer_size_def .
      then have "2 * length (play_buffer s) = unat ?sz"
        using k by (simp only:)
      then show ?thesis using False u by simp
    qed
  qed
  show ?thesis using 1 2 3 by (intro exI[of _ ?b] conjI impI) auto
qed

theorem RequestPlayoutData_without_transport_witness:
  "audio_transport_cb (AudioDeviceBuffer_ctor\<lparr>play_channels := 2\<rparr>) = None \<and>
   (\<exists>b. RequestPlayoutData True \<lparr>pd_res = 0, pd_written = [], pd_nSamplesOut = 0\<rparr> 480
           (AudioDeviceBuffer_ctor\<lparr>play_channels := 2\<rparr>)
         = Inr (0, AudioDeviceBuffer_ctor\<lparr>play_channels := 2, play_buffer := b\<rparr>) \<and>
        Buffer_size b = 1920 \<and> length b = 960)"
  using RequestPlayoutData_without_transport
    [of "AudioDeviceBuffer_ctor\<lparr>play_channels := 2\<rparr>" True
        "\<lparr>pd_res = 0, pd_written = [], pd_nSamplesOut = 0\<rparr>" 480]
  by (simp add: AudioDeviceBuffer_ctor_def)

subsection \<open>What a step leaves alone\<close>

lemma LogStats_session:
  "LogStats d st c c2 s = Inr s' \<Longrightarrow>
     recording s' = recording s \<and> rec_start_time s' = rec_start_time s \<and>
     only_silence_recorded s' = only_silence_recorded s"
  by (auto simp: LogStats_def Let_def PostDelayedTask_def split: if_splits)

lemma run_task_session:
  "run_task d c t s = Inr s' \<Longrightarrow>
     recording s' = recording s \<and> rec_start_time s' = rec_start_time s \<and>
     only_silence_recorded s' = only_silence_recorded s"
  by (cases t) (auto simp: run_task_def ResetRecStats_def ResetPlayStats_def UpdateRecStats_def
      UpdatePlayStats_def Let_def split: if_splits dest: LogStats_session)

lemma SetRecordedBuffer_session:
  "SetRecordedBuffer d buf n s = Inr rs \<Longrightarrow>
     recording (snd rs) = recording s \<and> rec_start_time (snd rs) = rec_start_time s \<and>
     (only_silence_recorded (snd rs) \<longrightarrow> only_silence_recorded s)"
  by (auto simp: SetRecordedBuffer_def Let_def PostTask_def split: if_splits)

lemma DeliverRecordedData_session:
  "DeliverRecordedData reply s = Inr rs \<Longrightarrow>
     recording (snd rs) = recording s \<and> rec_start_time (snd rs) = rec_start_time s \<and>
     only_silence_recorded (snd rs) = only_silence_recorded s"
  by (auto simp: DeliverRecordedData_def Let_def split: if_splits)

lemma RequestPlayoutData_session:
  "RequestPlayoutData d reply n s = Inr rs \<Longrightarrow>
     recording (snd rs) = recording s \<and> rec_start_time (snd rs) = rec_start_time s \<and>
     only_silence_recorded (snd rs) = only_silence_recorded s"
  by (auto simp: RequestPlayoutData_def Let_def PostTask_def split: if_splits)





subsection \<open>The histogram at the end of a recording session\<close>





subsection \<open>Sequences of recorded buffers\<close>

lemma measuring_call_0: "c0 < 50 \<Longrightarrow> measuring_call c0 0 \<longleftrightarrow> c0 = 49"
  unfolding measuring_call_def by presburger

lemma measuring_call_Suc: "measuring_call (Suc c0 mod 50) i = measuring_call c0 (Suc i)"
  unfolding measuring_call_def by presburger

lemma SetRecordedBuffer_measuring:
  assumes "SetRecordedBuffer d buf n s = Inr rs" and "rec_stat_count s = 49"
  shows "rs = (0, s\<lparr>rec_buffer := Buffer_SetData buf (n * rec_channels s * 2),
                     rec_stat_count := 0,
                     trace := trace s @ [Rec_MaxAbsValueW16
                        (WebRtcSpl_MaxAbsValueW16 (measured_samples (rec_channels s) (buf, n)))],
                     only_silence_recorded := only_silence_recorded s \<and>
                        \<not> 0 < sint (WebRtcSpl_MaxAbsValueW16 (measured_samples (rec_channels s) (buf, n))),
                     task_queue := task_queue s @ [Task_UpdateRecStats
                        (WebRtcSpl_MaxAbsValueW16 (measured_samples (rec_channels s) (buf, n))) n]\<rparr>)"
proof -
  have a: "\<not> length buf < unat (n * rec_channels s * 2) div 2"
    using assms(1) by (auto simp: SetRecordedBuffer_def Let_def)
  have b: "\<not> length (Buffer_SetData buf (n * rec_channels s * 2)) < unat (n * rec_channels s)"
    using assms a by (auto simp: SetRecordedBuffer_def Let_def)
  show ?thesis
    using assms a b
    by (cases "0 < sint (WebRtcSpl_MaxAbsValueW16 (measured_samples (rec_channels s) (buf, n)))")
       (simp_all add: SetRecordedBuffer_def Let_def PostTask_def measured_samples_def)
qed

lemma SetRecordedBuffer_counting:
  assumes "SetRecordedBuffer d buf n s = Inr rs" and "rec_stat_count s < 49"
  shows "rs = (0, s\<lparr>rec_buffer := Buffer_SetData buf (n * rec_channels s * 2),
                     rec_stat_count := rec_stat_count s + 1,
                     task_queue := task_queue s @ [Task_UpdateRecStats 0 n]\<rparr>)"
proof -
  have a: "\<not> length buf < unat (n * rec_channels s * 2) div 2"
    using assms(1) by (auto simp: SetRecordedBuffer_def Let_def)
  show ?thesis
    using assms a by (simp add: SetRecordedBuffer_def Let_def PostTask_def)
qed

lemma rec_peaks_append [simp]: "rec_peaks (a @ b) = rec_peaks a @ rec_peaks b"
  by (simp add: rec_peaks_def)

lemma rec_updates_append [simp]: "rec_updates (a @ b) = rec_updates a @ rec_updates b"
  by (simp add: rec_updates_def)

lemma play_peaks_append [simp]: "play_peaks (a @ b) = play_peaks a @ play_peaks b"
  by (simp add: play_peaks_def)

lemma play_updates_append [simp]: "play_updates (a @ b) = play_updates a @ play_updates b"
  by (simp add: play_updates_def)

lemma SetRecordedBuffer_step:
  assumes "SetRecordedBuffer d buf n s = Inr rs" and "rec_stat_count s < 50"
  shows "rec_stat_count (snd rs) = (rec_stat_count s + 1) mod 50 \<and>
    rec_channels (snd rs) = rec_channels s \<and>
    only_silence_recorded (snd rs) =
           (only_silence_recorded s \<and>
            (measuring_call (rec_stat_count s) 0 \<longrightarrow>
               (\<forall>x\<in>set (measured_samples (rec_channels s) (buf, n)). x = 0))) \<and>
    length (rec_peaks (trace (snd rs))) =
      length (rec_peaks (trace s)) + (if rec_stat_count s = 49 then 1 else 0) \<and>
    length (rec_updates (task_queue (snd rs))) = length (rec_updates (task_queue s)) + 1"
proof -
  consider (m) "rec_stat_count s = 49" | (c) "rec_stat_count s < 49"
    using assms(2) by linarith
  then show ?thesis
  proof cases
    case m
    show ?thesis
      using SetRecordedBuffer_measuring[OF assms(1) m] m
      by (simp add: measuring_call_0 MaxAbsValueW16_pos rec_peaks_def rec_updates_def)
  next
    case c
    show ?thesis
      using SetRecordedBuffer_counting[OF assms(1) c] c
      by (simp add: measuring_call_0 rec_peaks_def rec_updates_def)
  qed
qed

lemma count_step: "c0 < 50 \<Longrightarrow> (if c0 = 49 then 1 else 0) + ((c0 + 1) mod 50 + n) div 50 = (c0 + Suc n) div (50::nat)"
  by (cases "c0 = 49") auto

lemma mod_step: "((c0 + 1) mod 50 + n) mod 50 = (c0 + Suc n) mod (50::nat)"
  by presburger

lemma SetRecordedBuffer_calls_counts:
  "SetRecordedBuffer_calls d calls s = Inr s' \<Longrightarrow> rec_stat_count s < 50 \<Longrightarrow>
     rec_stat_count s' = (rec_stat_count s + length calls) mod 50 \<and>
     rec_channels s' = rec_channels s \<and>
     length (rec_peaks (trace s')) =
       length (rec_peaks (trace s)) + (rec_stat_count s + length calls) div 50 \<and>
     length (rec_updates (task_queue s')) = length (rec_updates (task_queue s)) + length calls"
proof (induction calls arbitrary: s)
  case Nil
  then show ?case by simp
next
  case (Cons c cs)
  from Cons.prems(1) obtain rs where rs: "SetRecordedBuffer d (fst c) (snd c) s = Inr rs"
    and rest: "SetRecordedBuffer_calls d cs (snd rs) = Inr s'"
    by (auto split: sum.splits)
  note st = SetRecordedBuffer_step[OF rs Cons.prems(2)]
  have lt: "rec_stat_count (snd rs) < 50" using st by simp
  note ih = Cons.IH[OF rest lt]
  show ?case
    using st ih count_step[OF Cons.prems(2), of "length cs"] mod_step[of "rec_stat_count s" "length cs"]
    by simp
qed

lemma all_less_Suc_shift: "(\<forall>i<Suc n. P i) \<longleftrightarrow> P 0 \<and> (\<forall>i<n. P (Suc i))"
  by (auto simp: less_Suc_eq_0_disj)

lemma SetRecordedBuffer_calls_flag:
  "SetRecordedBuffer_calls d calls s = Inr s' \<Longrightarrow> rec_stat_count s < 50 \<Longrightarrow>
     only_silence_recorded s' =
       (only_silence_recorded s \<and>
        (\<forall>i<length calls. measuring_call (rec_stat_count s) i \<longrightarrow>
           (\<forall>x\<in>set (measured_samples (rec_channels s) (calls ! i)). x = 0)))"
proof (induction calls arbitrary: s)
  case Nil
  then show ?case by simp
next
  case (Cons c cs)
  from Cons.prems(1) obtain rs where rs: "SetRecordedBuffer d (fst c) (snd c) s = Inr rs"
    and rest: "SetRecordedBuffer_calls d cs (snd rs) = Inr s'"
    by (auto split: sum.splits)
  note st = SetRecordedBuffer_step[OF rs Cons.prems(2)]
  have lt: "rec_stat_count (snd rs) < 50" using st by simp
  note ih = Cons.IH[OF rest lt]
  show ?case
    unfolding ih length_Cons all_less_Suc_shift
    using st by (simp add: measuring_call_Suc)
qed

lemma SetRecordedBuffer_calls_prefix:
  "SetRecordedBuffer_calls d calls s = Inr s' \<Longrightarrow>
     \<exists>sk. SetRecordedBuffer_calls d (take k calls) s = Inr sk"
proof (induction calls arbitrary: s k)
  case Nil
  then show ?case by simp
next
  case (Cons c cs)
  show ?case
  proof (cases k)
    case 0
    then show ?thesis by simp
  next
    case (Suc j)
    from Cons.prems obtain rs where rs: "SetRecordedBuffer d (fst c) (snd c) s = Inr rs"
      and rest: "SetRecordedBuffer_calls d cs (snd rs) = Inr s'"
      by (auto split: sum.splits)
    from Cons.IH[OF rest, of j] show ?thesis using rs Suc by simp
  qed
qed

subsection \<open>Sequences of playout requests\<close>

lemma RequestPlayoutData_step:
  assumes "RequestPlayoutData d reply n s = Inr rs" and "play_stat_count s < 50"
    and "audio_transport_cb s \<noteq> None"
  shows "play_stat_count (snd rs) = (play_stat_count s + 1) mod 50 \<and>
    audio_transport_cb (snd rs) = audio_transport_cb s \<and>
    fst rs = ucast (pd_nSamplesOut reply) \<and>
    length (play_peaks (trace (snd rs))) =
      length (play_peaks (trace s)) + (if play_stat_count s = 49 then 1 else 0) \<and>
    length (play_updates (task_queue (snd rs))) = length (play_updates (task_queue s)) + 1"
proof -
  consider (m) "play_stat_count s = 49" | (c) "play_stat_count s < 49"
    using assms(2) by linarith
  then show ?thesis
  proof cases
    case m
    show ?thesis
      using assms(1,3) m
      by (cases "Buffer_size (play_buffer s) \<noteq> n * (play_channels s * 2)")
         (auto simp: RequestPlayoutData_def Let_def PostTask_def play_peaks_def play_updates_def
          split: if_splits)
  next
    case c
    show ?thesis
      using assms(1,3) c
      by (cases "Buffer_size (play_buffer s) \<noteq> n * (play_channels s * 2)")
         (auto simp: RequestPlayoutData_def Let_def PostTask_def play_peaks_def play_updates_def
          split: if_splits)
  qed
qed

lemma RequestPlayoutData_calls_counts:
  "RequestPlayoutData_calls d calls s = Inr s' \<Longrightarrow> play_stat_count s < 50 \<Longrightarrow>
   audio_transport_cb s \<noteq> None \<Longrightarrow>
     play_stat_count s' = (play_stat_count s + length calls) mod 50 \<and>
     audio_transport_cb s' = audio_transport_cb s \<and>
     length (play_peaks (trace s')) =
       length (play_peaks (trace s)) + (play_stat_count s + length calls) div 50 \<and>
     length (play_updates (task_queue s')) = length (play_updates (task_queue s)) + length calls"
proof (induction calls arbitrary: s)
  case Nil
  then show ?case by simp
next
  case (Cons c cs)
  from Cons.prems(1) obtain rs where rs: "RequestPlayoutData d (fst c) (snd c) s = Inr rs"
    and rest: "RequestPlayoutData_calls d cs (snd rs) = Inr s'"
    by (auto split: sum.splits)
  note st = RequestPlayoutData_step[OF rs Cons.prems(2,3)]
  have lt: "play_stat_count (snd rs) < 50" and cb: "audio_transport_cb (snd rs) \<noteq> None"
    using st Cons.prems(3) by simp_all
  note ih = Cons.IH[OF rest lt cb]
  show ?case
    using st ih count_step[OF Cons.prems(2), of "length cs"] mod_step[of "play_stat_count s" "length cs"]
    by simp
qed

lemma RequestPlayoutData_calls_prefix:
  "RequestPlayoutData_calls d calls s = Inr s' \<Longrightarrow>
     \<exists>sk. RequestPlayoutData_calls d (take k calls) s = Inr sk"
proof (induction calls arbitrary: s k)
  case Nil
  then show ?case by simp
next
  case (Cons c cs)
  show ?case
  proof (cases k)
    case 0
    then show ?thesis by simp
  next
    case (Suc j)
    from Cons.prems obtain rs where rs: "RequestPlayoutData d (fst c) (snd c) s = Inr rs"
      and rest: "RequestPlayoutData_calls d cs (snd rs) = Inr s'"
      by (auto split: sum.splits)
    from Cons.IH[OF rest, of j] show ?thesis using rs Suc by simp
  qed
qed

subsection \<open>How often a peak is measured and a statistics update posted\<close>

text \<open>Claim C3, as stated, fails: the statistics update is not posted on every 50th call
  only. The first \<open>SetRecordedBuffer\<close> of a new object already leaves one
  \<open>UpdateRecStats\<close> in the task queue, and floor(1/50) is 0.\<close>

theorem stats_update_after_first_call:
  "map_sum id (rec_updates \<circ> task_queue)
     (SetRecordedBuffer_calls True [([0], 1)]
        (StartRecording 0 (snd (SetRecordingChannels 1 AudioDeviceBuffer_ctor))))
   = Inr [(0, 1)] \<and> (1::nat) div 50 = 0"
  by (simp add: SetRecordedBuffer_def SetRecordingChannels_def StartRecording_def
      AudioDeviceBuffer_ctor_def Let_def PostTask_def StartPeriodicLogging_def Buffer_SetData_def
      rec_updates_def)

text \<open>Claim C3, amended. Take any sequence of \<open>SetRecordedBuffer\<close> calls that runs
  without a fault, from a state whose counter \<open>rec_stat_count_\<close> is \<open>c0\<close> (below 50; it
  is 0 in a new object). After the first \<open>k\<close> calls, for every \<open>k\<close>, the peak has been
  measured exactly floor((c0 + k) / 50) times, so with \<open>c0 = 0\<close> on the 50th, 100th,
  150th, ... call and on no other, and exactly \<open>k\<close> statistics updates have been
  posted: one on every call. The same holds for \<open>RequestPlayoutData\<close> with a registered
  transport and \<open>play_stat_count_\<close>.\<close>

theorem peak_every_50th_call_update_every_call:
  "(rec_stat_count s < 50 \<and> SetRecordedBuffer_calls d calls s = Inr s' \<longrightarrow>
      (\<forall>k\<le>length calls. \<exists>sk.
         SetRecordedBuffer_calls d (take k calls) s = Inr sk \<and>
         length (rec_peaks (trace sk)) =
           length (rec_peaks (trace s)) + (rec_stat_count s + k) div 50 \<and>
         length (rec_updates (task_queue sk)) = length (rec_updates (task_queue s)) + k)) \<and>
   (play_stat_count s < 50 \<and> audio_transport_cb s \<noteq> None \<and>
    RequestPlayoutData_calls d pcalls s = Inr s'' \<longrightarrow>
      (\<forall>k\<le>length pcalls. \<exists>sk.
         RequestPlayoutData_calls d (take k pcalls) s = Inr sk \<and>
         length (play_peaks (trace sk)) =
           length (play_peaks (trace s)) + (play_stat_count s + k) div 50 \<and>
         length (play_updates (task_queue sk)) = length (play_updates (task_queue s)) + k))"
proof (intro conjI impI allI)
  fix k
  assume a: "rec_stat_count s < 50 \<and> SetRecordedBuffer_calls d calls s = Inr s'"
    and k: "k \<le> length calls"
  from SetRecordedBuffer_calls_prefix[of d calls s s' k] a
  obtain sk where sk: "SetRecordedBuffer_calls d (take k calls) s = Inr sk" by auto
  from SetRecordedBuffer_calls_counts[OF sk] a k
  show "\<exists>sk. SetRecordedBuffer_calls d (take k calls) s = Inr sk \<and>
         length (rec_peaks (trace sk)) =
           length (rec_peaks (trace s)) + (rec_stat_count s + k) div 50 \<and>
         length (rec_updates (task_queue sk)) = length (rec_updates (task_queue s)) + k"
    using sk by (simp add: min_absorb2)
next
  fix k
  assume a: "play_stat_count s < 50 \<and> audio_transport_cb s \<noteq> None \<and>
    RequestPlayoutData_calls d pcalls s = Inr s''"
    and k: "k \<le> length pcalls"
  from RequestPlayoutData_calls_prefix[of d pcalls s s'' k] a
  obtain sk where sk: "RequestPlayoutData_calls d (take k pcalls) s = Inr sk" by auto
  from RequestPlayoutData_calls_counts[OF sk] a k
  show "\<exists>sk. RequestPlayoutData_calls d (take k pcalls) s = Inr sk \<and>
         length (play_peaks (trace sk)) =
           length (play_peaks (trace s)) + (play_stat_count s + k) div 50 \<and>
         length (play_updates (task_queue sk)) = length (play_updates (task_queue s)) + k"
    using sk by (simp add: min_absorb2)
qed

theorem peak_every_50th_call_update_every_call_witness:
  "\<exists>sk pk.
     SetRecordedBuffer_calls True (take 2 [([0], 1), ([5], 1)])
       (AudioDeviceBuffer_ctor\<lparr>rec_channels := 1, rec_stat_count := 48\<rparr>) = Inr sk \<and>
     length (rec_peaks (trace sk)) = 1 \<and> length (rec_updates (task_queue sk)) = 2 \<and>
     RequestPlayoutData_calls True (take 1 [(\<lparr>pd_res = 0, pd_written = [7], pd_nSamplesOut = 1\<rparr>, 1)])
       (AudioDeviceBuffer_ctor\<lparr>audio_transport_cb := Some 1, play_channels := 1,
          play_stat_count := 49\<rparr>) = Inr pk \<and>
     length (play_peaks (trace pk)) = 1 \<and> length (play_updates (task_queue pk)) = 1"
proof -
  let ?s = "AudioDeviceBuffer_ctor\<lparr>rec_channels := 1, rec_stat_count := 48\<rparr>"
  let ?p = "AudioDeviceBuffer_ctor\<lparr>audio_transport_cb := Some 1, play_channels := 1,
          play_stat_count := 49\<rparr>"
  let ?calls = "[([0], 1), ([5], 1)] :: (int16_t list \<times> size_t) list"
  let ?pcalls = "[(\<lparr>pd_res = 0, pd_written = [7], pd_nSamplesOut = 1\<rparr>, 1)] :: (PlayData_reply \<times> size_t) list"
  have "\<exists>s'. SetRecordedBuffer_calls True ?calls ?s = Inr s'"
    by (simp add: SetRecordedBuffer_def AudioDeviceBuffer_ctor_def Let_def PostTask_def
        Buffer_SetData_def)
  then obtain s' where r: "SetRecordedBuffer_calls True ?calls ?s = Inr s'" by blast
  have "\<exists>s'. RequestPlayoutData_calls True ?pcalls ?p = Inr s'"
    by (simp add: RequestPlayoutData_def AudioDeviceBuffer_ctor_def Let_def PostTask_def
        Buffer_SetSize_def Buffer_size_def transport_write_def)
  then obtain s'' where p: "RequestPlayoutData_calls True ?pcalls ?p = Inr s''" by blast
  have c: "rec_stat_count ?s < 50" "play_stat_count ?p < 50" "audio_transport_cb ?p \<noteq> None"
    "rec_stat_count ?s = 48" "play_stat_count ?p = 49"
    "rec_peaks (trace ?s) = []" "rec_updates (task_queue ?s) = []"
    "play_peaks (trace ?p) = []" "play_updates (task_queue ?p) = []"
    by (simp_all add: AudioDeviceBuffer_ctor_def rec_peaks_def rec_updates_def play_peaks_def
        play_updates_def)
  from peak_every_50th_call_update_every_call[of ?s True ?calls s' "[]" ?s] r c
  obtain sk where sk: "SetRecordedBuffer_calls True (take 2 ?calls) ?s = Inr sk"
    "length (rec_peaks (trace sk)) = 1" "length (rec_updates (task_queue sk)) = 2"
    by (auto simp del: SetRecordedBuffer_calls.simps take_Cons_numeral take_Suc_Cons)
  from peak_every_50th_call_update_every_call[of ?p True "[]" ?p ?pcalls s''] p c
  obtain pk where pk: "RequestPlayoutData_calls True (take 1 ?pcalls) ?p = Inr pk"
    "length (play_peaks (trace pk)) = 1" "length (play_updates (task_queue pk)) = 1"
    by (auto simp del: RequestPlayoutData_calls.simps take_Cons_numeral take_Suc_Cons)
  show ?thesis using sk pk by blast
qed

subsection \<open>The silence flag\<close>

lemma exec_step_flag:
  assumes "exec_step d c s = Inr s'" and "\<not> only_silence_recorded s" and "only_silence_recorded s'"
  shows "\<exists>t. c = Do_StartRecording t"
proof (cases c)
  case (Do_SetRecordedBuffer b n)
  then show ?thesis using assms SetRecordedBuffer_session[of d b n s]
    by (auto simp: exec_step_def map_sum_def split: sum.splits)
next
  case (Do_DeliverRecordedData r)
  then show ?thesis using assms DeliverRecordedData_session[of r s]
    by (auto simp: exec_step_def map_sum_def split: sum.splits)
next
  case (Do_RequestPlayoutData r n)
  then show ?thesis using assms RequestPlayoutData_session[of d r n s]
    by (auto simp: exec_step_def map_sum_def split: sum.splits)
next
  case (Do_run_task clock t)
  then show ?thesis using assms run_task_session[of d clock t s]
    by (auto simp: exec_step_def)
next
  case (Do_StartRecording t)
  then show ?thesis by simp
qed (use assms in \<open>auto simp: exec_step_def RegisterAudioCallback_def StartPlayout_def
      StopRecording_def StopPlayout_def SetRecordingSampleRate_def SetPlayoutSampleRate_def
      SetRecordingChannels_def SetPlayoutChannels_def SetRecordingChannel_def
      SetCurrentMicLevel_def SetTypingStatus_def SetVQEData_def GetPlayoutData_def Let_def
      PostTask_def StartPeriodicLogging_def StopPeriodicLogging_def map_sum_def
      split: if_splits sum.splits\<close>)

lemma set_measured_samples: "set (measured_samples ch c) \<subseteq> set (fst c)"
  unfolding measured_samples_def Buffer_SetData_def
  by (meson order_trans set_take_subset)

text \<open>Claim C2, as stated, fails: a non-zero sample that is delivered on a call that does
  not measure the peak goes unnoticed. One buffer with the sample 1 is recorded in a
  session of 20 seconds; the flag is true at the stop and the histogram gets "true".\<close>

theorem nonzero_sample_on_unmeasured_call:
  "map_sum id only_silence_recorded
     (SetRecordedBuffer_calls True [([1], 1)]
        (StartRecording 0 (snd (SetRecordingChannels 1 AudioDeviceBuffer_ctor)))) = Inr True \<and>
   map_sum id (histograms \<circ> trace \<circ> StopRecording 20000)
     (SetRecordedBuffer_calls True [([1], 1)]
        (StartRecording 0 (snd (SetRecordingChannels 1 AudioDeviceBuffer_ctor)))) = Inr [True] \<and>
   (1 :: int16_t) \<noteq> 0"
  by (simp add: SetRecordedBuffer_def SetRecordingChannels_def StartRecording_def
      StopRecording_def AudioDeviceBuffer_ctor_def Let_def PostTask_def StartPeriodicLogging_def
      StopPeriodicLogging_def Buffer_SetData_def histograms_def TimeSince_def TimeMillis_def
      kMinValidCallTimeTimeInMilliseconds_def kMinValidCallTimeTimeInSeconds_def
      kNumMillisecsPerSec_def)

text \<open>Claim C2, amended. Take a recording session: a \<open>StartRecording\<close> that takes effect,
  in a state whose counter \<open>rec_stat_count_\<close> is \<open>c0\<close> (below 50), and then any sequence of
  \<open>SetRecordedBuffer\<close> calls that runs without a fault. The silence flag is true at the
  stop exactly when no call that measures the peak (the calls that bring the counter to
  50: every 50th) measured a peak above 0, which is when each of them delivered only
  zeros among the samples it measured. In particular it is true when every delivered
  sample is zero. \<open>StopRecording\<close> does not change it, and no step but a
  \<open>StartRecording\<close> ever turns the flag from false to true.\<close>

theorem silence_flag_at_stop:
  assumes "\<not> recording s0" and "rec_stat_count s0 < 50"
    and "SetRecordedBuffer_calls d calls (StartRecording t0 s0) = Inr s"
  shows "(only_silence_recorded s \<longleftrightarrow>
            (\<forall>i<length calls. measuring_call (rec_stat_count s0) i \<longrightarrow>
               \<not> 0 < sint (WebRtcSpl_MaxAbsValueW16
                             (measured_samples (rec_channels s0) (calls ! i))))) \<and>
         (only_silence_recorded s \<longleftrightarrow>
            (\<forall>i<length calls. measuring_call (rec_stat_count s0) i \<longrightarrow>
               (\<forall>x\<in>set (measured_samples (rec_channels s0) (calls ! i)). x = 0))) \<and>
         ((\<forall>c\<in>set calls. \<forall>x\<in>set (fst c). x = 0) \<longrightarrow> only_silence_recorded s) \<and>
         only_silence_recorded (StopRecording t1 s) = only_silence_recorded s \<and>
         (\<forall>d' c u u'. exec_step d' c u = Inr u' \<and> \<not> only_silence_recorded u \<and>
             only_silence_recorded u' \<longrightarrow> (\<exists>t. c = Do_StartRecording t))"
proof -
  let ?s1 = "StartRecording t0 s0"
  have s1: "only_silence_recorded ?s1" "rec_stat_count ?s1 = rec_stat_count s0"
    "rec_channels ?s1 = rec_channels s0"
    using assms(1) by (simp_all add: StartRecording_def Let_def PostTask_def StartPeriodicLogging_def)
  have lt: "rec_stat_count ?s1 < 50" using s1 assms(2) by simp
  have 1: "only_silence_recorded s \<longleftrightarrow>
            (\<forall>i<length calls. measuring_call (rec_stat_count s0) i \<longrightarrow>
               (\<forall>x\<in>set (measured_samples (rec_channels s0) (calls ! i)). x = 0))"
    using SetRecordedBuffer_calls_flag[OF assms(3) lt] s1 by simp
  have 2: "only_silence_recorded s" if z: "\<forall>c\<in>set calls. \<forall>x\<in>set (fst c). x = 0"
  proof -
    have "\<forall>x\<in>set (measured_samples (rec_channels s0) (calls ! i)). x = 0" if "i < length calls" for i
      using z that set_measured_samples[of "rec_channels s0" "calls ! i"] nth_mem[OF that] by blast
    then show ?thesis using 1 by simp
  qed
  have 3: "only_silence_recorded (StopRecording t1 s) = only_silence_recorded s"
    by (simp add: StopRecording_def Let_def StopPeriodicLogging_def PostTask_def)
  have 0: "only_silence_recorded s \<longleftrightarrow>
            (\<forall>i<length calls. measuring_call (rec_stat_count s0) i \<longrightarrow>
               \<not> 0 < sint (WebRtcSpl_MaxAbsValueW16
                             (measured_samples (rec_channels s0) (calls ! i))))"
    unfolding 1 by (simp add: MaxAbsValueW16_pos)
  have 4: "\<forall>d' c u u'. exec_step d' c u = Inr u' \<and> \<not> only_silence_recorded u \<and>
             only_silence_recorded u' \<longrightarrow> (\<exists>t. c = Do_StartRecording t)"
    using exec_step_flag by blast
  show ?thesis using 0 1 2 3 4 by (intro conjI impI) blast+
qed

theorem silence_flag_at_stop_witness:
  "\<exists>s u. SetRecordedBuffer_calls True [([3], 1)]
            (StartRecording 0 (AudioDeviceBuffer_ctor\<lparr>rec_channels := 1, rec_stat_count := 49\<rparr>)) = Inr s \<and>
         \<not> only_silence_recorded s \<and>
         SetRecordedBuffer_calls True [([0], 1), ([0], 1)]
            (StartRecording 0 (AudioDeviceBuffer_ctor\<lparr>rec_channels := 1, rec_stat_count := 48\<rparr>)) = Inr u \<and>
         only_silence_recorded u"
proof -
  let ?a = "AudioDeviceBuffer_ctor\<lparr>rec_channels := 1, rec_stat_count := 49\<rparr>"
  let ?b = "AudioDeviceBuffer_ctor\<lparr>rec_channels := 1, rec_stat_count := 48\<rparr>"
  have "\<exists>s. SetRecordedBuffer_calls True [([3], 1)] (StartRecording 0 ?a) = Inr s"
    by (simp add: SetRecordedBuffer_def StartRecording_def AudioDeviceBuffer_ctor_def Let_def
        PostTask_def StartPeriodicLogging_def Buffer_SetData_def)
  then obtain s where s: "SetRecordedBuffer_calls True [([3], 1)] (StartRecording 0 ?a) = Inr s"
    by blast
  have "\<exists>s. SetRecordedBuffer_calls True [([0], 1), ([0], 1)] (StartRecording 0 ?b) = Inr s"
    by (simp add: SetRecordedBuffer_def StartRecording_def AudioDeviceBuffer_ctor_def Let_def
        PostTask_def StartPeriodicLogging_def Buffer_SetData_def)
  then obtain u where u: "SetRecordedBuffer_calls True [([0], 1), ([0], 1)] (StartRecording 0 ?b) = Inr u"
    by blast
  have c: "\<not> recording ?a" "rec_stat_count ?a = 49" "rec_channels ?a = 1"
     "\<not> recording ?b" "rec_stat_count ?b = 48" "rec_channels ?b = 1"
    by (simp_all add: AudioDeviceBuffer_ctor_def)
  have "\<not> only_silence_recorded s"
    using silence_flag_at_stop[of ?a True "[([3], 1)]" 0 s 0, THEN conjunct2, THEN conjunct1] s c
    by (simp add: measuring_call_def measured_samples_def Buffer_SetData_def)
  moreover have "only_silence_recorded u"
  proof -
    have lt: "rec_stat_count ?b < 50" by (simp add: AudioDeviceBuffer_ctor_def)
    note t = silence_flag_at_stop[OF c(4) lt u, of 0, THEN conjunct2, THEN conjunct2, THEN conjunct1]
    have "\<forall>c\<in>set [([0], 1), ([0], 1 :: size_t)]. \<forall>x\<in>set (fst c). x = (0 :: int16_t)"
      by simp
    with t show ?thesis by (rule mp)
  qed
  ultimately show ?thesis using s u by blast
qed

subsection \<open>From the recorded buffer to the transport\<close>

text \<open>Claim C5. Let a transport be registered and the channel count \<open>c\<close> be positive.
  \<open>SetRecordedBuffer(data, N)\<close> with \<open>N > 0\<close>, where \<open>data\<close> holds the \<open>N\<close> frames (\<open>N * c\<close>
  samples, \<open>N * c * 2\<close> bytes, a size that fits \<open>size_t\<close>), followed at once by
  \<open>DeliverRecordedData\<close>, makes exactly one call of \<open>RecordedDataIsAvailable\<close>, and its
  sample count is \<open>N\<close>. Both calls return 0.\<close>

theorem recorded_frames_reach_transport:
  assumes "audio_transport_cb s \<noteq> None"
    and "0 < num_samples" and "0 < rec_channels s" and "rec_stat_count s < 50"
    and "unat num_samples * unat (rec_channels s) \<le> length audio_buffer"
    and "unat num_samples * unat (rec_channels s) * 2 < 2 ^ 64"
  shows "\<exists>s1 s2 args.
           SetRecordedBuffer d audio_buffer num_samples s = Inr (0, s1) \<and>
           DeliverRecordedData reply s1 = Inr (0, s2) \<and>
           trace s2 = trace s1 @ [Call_RecordedDataIsAvailable args] \<and>
           rd_nSamples args = num_samples \<and>
           rd_nChannels args = rec_channels s \<and>
           rd_nBytesPerSample args = rec_channels s * 2 \<and>
           rd_audioSamples args = take (unat num_samples * unat (rec_channels s)) audio_buffer"
proof -
  let ?c = "rec_channels s"
  let ?k = "unat num_samples * unat ?c"
  note u = unat_frames[OF assms(6)]
  note dv = frames_div[OF assms(6) assms(2) assms(3)]
  have a: "\<not> length audio_buffer < unat (num_samples * ?c * 2) div 2"
    using assms(5) u by simp
  have sd: "Buffer_SetData audio_buffer (num_samples * ?c * 2) = take ?k audio_buffer"
    using u by (simp add: Buffer_SetData_def)
  have b: "\<not> length (Buffer_SetData audio_buffer (num_samples * ?c * 2)) < unat (num_samples * ?c)"
    using assms(5) u sd by simp
  have "\<exists>s1. SetRecordedBuffer d audio_buffer num_samples s = Inr (0, s1) \<and>
          rec_buffer s1 = take ?k audio_buffer \<and> rec_channels s1 = ?c \<and>
          audio_transport_cb s1 = audio_transport_cb s"
    using a b sd assms(4)
    by (cases "rec_stat_count s = 49")
       (simp_all add: SetRecordedBuffer_def Let_def PostTask_def)
  then obtain s1 where s1: "SetRecordedBuffer d audio_buffer num_samples s = Inr (0, s1)"
    "rec_buffer s1 = take ?k audio_buffer" "rec_channels s1 = ?c"
    "audio_transport_cb s1 = audio_transport_cb s" by blast
  have sz: "Buffer_size (rec_buffer s1) = num_samples * ?c * 2"
  proof -
    have "length (rec_buffer s1) = ?k" using s1(2) assms(5) by simp
    then have "unat (Buffer_size (rec_buffer s1)) = unat (num_samples * ?c * 2)"
      using u(2) assms(6) by (simp add: Buffer_size_def unat_of_nat mult.commute)
    then show ?thesis by (simp add: word_unat_eq_iff)
  qed
  have "\<exists>s2 args. DeliverRecordedData reply s1 = Inr (0, s2) \<and>
           trace s2 = trace s1 @ [Call_RecordedDataIsAvailable args] \<and>
           rd_nSamples args = num_samples \<and>
           rd_nChannels args = ?c \<and>
           rd_nBytesPerSample args = ?c * 2 \<and>
           rd_audioSamples args = take ?k audio_buffer"
    using s1 sz dv assms(1)
    by (cases "rd_res reply = - 1") (simp_all add: DeliverRecordedData_def Let_def)
  then show ?thesis using s1(1) by blast
qed

theorem recorded_frames_reach_transport_witness:
  "\<exists>s1 s2 args.
     SetRecordedBuffer True [1, 2, 3, 4] 2
        (AudioDeviceBuffer_ctor\<lparr>audio_transport_cb := Some 1, rec_channels := 2\<rparr>) = Inr (0, s1) \<and>
     DeliverRecordedData \<lparr>rd_res = 0, rd_newMicLevel = 9\<rparr> s1 = Inr (0, s2) \<and>
     trace s2 = trace s1 @ [Call_RecordedDataIsAvailable args] \<and>
     rd_nSamples args = 2 \<and> rd_nChannels args = 2 \<and> rd_nBytesPerSample args = 4 \<and>
     rd_audioSamples args = [1, 2, 3, 4]"
  using recorded_frames_reach_transport
    [of "AudioDeviceBuffer_ctor\<lparr>audio_transport_cb := Some 1, rec_channels := 2\<rparr>" 2
        "[1, 2, 3, 4]" True "\<lparr>rd_res = 0, rd_newMicLevel = 9\<rparr>"]
  by (simp add: AudioDeviceBuffer_ctor_def)

subsection \<open>From the playout request to the device\<close>

lemma sint_of_nat_int32: "k < 2 ^ 31 \<Longrightarrow> sint (of_nat k :: int32_t) = int k"
proof -
  assume a: "k < 2 ^ 31"
  have e: "(of_nat k :: 32 word) = word_of_int (int k)" by simp
  have "int k < 2 ^ 31" using a by (metis of_nat_less_iff of_nat_numeral of_nat_power)
  moreover have "- (2 ^ 31) \<le> int k" by simp
  ultimately have s: "signed_take_bit 31 (int k) = int k"
    by (rule signed_take_bit_int_eq_self[rotated])
  have "sint (word_of_int (int k) :: 32 word) = signed_take_bit (LENGTH(32) - 1) (int k)"
    by (rule sint_sbintrunc')
  also have "\<dots> = int k" using s by simp
  finally show ?thesis using e by (simp only:)
qed

lemma length_transport_write: "length (transport_write w b) = length b"
  by (simp add: transport_write_def)

lemma Buffer_size_transport_write: "Buffer_size (transport_write w b) = Buffer_size b"
  by (simp add: Buffer_size_def length_transport_write)

lemma RequestPlayoutData_buffer:
  assumes "RequestPlayoutData d reply n s = Inr rs"
  shows "Buffer_size (play_buffer (snd rs)) = n * play_channels s * 2 \<and>
         play_channels (snd rs) = play_channels s \<and>
         fst rs = (if audio_transport_cb s = None then 0 else ucast (pd_nSamplesOut reply))"
proof -
  let ?sz = "n * (play_channels s * 2)"
  let ?b = "if Buffer_size (play_buffer s) \<noteq> ?sz
            then Buffer_SetSize ?sz (play_buffer s) else play_buffer s"
  have b: "Buffer_size ?b = n * play_channels s * 2"
    using Buffer_size_SetSize[of "n * play_channels s" "play_buffer s"]
    by (simp add: mult.assoc)
  show ?thesis
  proof (cases "audio_transport_cb s = None")
    case True
    then have "RequestPlayoutData d reply n s = Inr (0, s\<lparr>play_buffer := ?b\<rparr>)"
      by (simp add: RequestPlayoutData_def Let_def)
    then have "rs = (0, s\<lparr>play_buffer := ?b\<rparr>)"
      using assms by simp
    then show ?thesis using b True by simp
  next
    case False
    then have "play_buffer (snd rs) = transport_write (pd_written reply) ?b \<and>
        play_channels (snd rs) = play_channels s \<and> fst rs = ucast (pd_nSamplesOut reply)"
      using assms
      by (cases "Buffer_size (play_buffer s) \<noteq> ?sz")
         (auto simp: RequestPlayoutData_def Let_def PostTask_def split: if_splits)
    then show ?thesis using b False by (auto simp: Buffer_size_transport_write)
  qed
qed

text \<open>Claim C10. After a \<open>RequestPlayoutData(N)\<close> that returned, with \<open>N > 0\<close> and a positive
  channel count \<open>c\<close>, \<open>GetPlayoutData\<close> returns \<open>N\<close>, the size of the playout buffer
  (\<open>N * c * 2\<close> bytes) divided by \<open>c * 2\<close>, and copies out the whole buffer, whatever
  the transport answered: the number of frames it produced is the result of
  \<open>RequestPlayoutData\<close> and shows nowhere in that of \<open>GetPlayoutData\<close>. \<open>N\<close> is such that
  \<open>N * c * 2\<close> fits \<open>size_t\<close> and \<open>N\<close> fits the \<open>int32_t\<close> that is returned.\<close>

theorem GetPlayoutData_returns_requested_frames:
  assumes "RequestPlayoutData d reply num_samples s = Inr (r, s1)"
    and "0 < num_samples" and "0 < play_channels s"
    and "unat num_samples * unat (play_channels s) * 2 < 2 ^ 64"
    and "unat num_samples < 2 ^ 31"
  shows "GetPlayoutData d s1 = Inr (ucast num_samples, play_buffer s1) \<and>
         sint (ucast num_samples :: int32_t) = int (unat num_samples) \<and>
         Buffer_size (play_buffer s1) = num_samples * play_channels s * 2 \<and>
         r = (if audio_transport_cb s = None then 0 else ucast (pd_nSamplesOut reply))"
proof -
  note rb = RequestPlayoutData_buffer[OF assms(1), simplified]
  note dv = frames_div[OF assms(4) assms(2) assms(3)]
  have pos: "0 < Buffer_size (play_buffer s1)"
    using rb dv(3) by (simp add: word_greater_zero_iff)
  have 1: "GetPlayoutData d s1 = Inr (ucast num_samples, play_buffer s1)"
    using rb dv pos by (simp add: GetPlayoutData_def Let_def)
  have 2: "sint (ucast num_samples :: int32_t) = int (unat num_samples)"
  proof -
    have "(ucast num_samples :: int32_t) = of_nat (unat num_samples)" by simp
    then show ?thesis using sint_of_nat_int32[OF assms(5)] by simp
  qed
  show ?thesis using 1 2 rb by simp
qed

theorem GetPlayoutData_returns_requested_frames_witness:
  "\<exists>r s1.
     RequestPlayoutData True \<lparr>pd_res = 0, pd_written = [5], pd_nSamplesOut = 1\<rparr> 3
        (AudioDeviceBuffer_ctor\<lparr>audio_transport_cb := Some 1, play_channels := 2\<rparr>) = Inr (r, s1) \<and>
     r = 1 \<and>
     GetPlayoutData True s1 = Inr (3, play_buffer s1) \<and>
     sint (3 :: int32_t) = 3 \<and>
     Buffer_size (play_buffer s1) = 12"
proof -
  let ?s = "AudioDeviceBuffer_ctor\<lparr>audio_transport_cb := Some 1, play_channels := 2\<rparr>"
  let ?reply = "\<lparr>pd_res = 0, pd_written = [5], pd_nSamplesOut = 1\<rparr>"
  have "\<exists>r s1. RequestPlayoutData True ?reply 3 ?s = Inr (r, s1)"
    by (simp add: RequestPlayoutData_def AudioDeviceBuffer_ctor_def Let_def PostTask_def
        Buffer_SetSize_def Buffer_size_def transport_write_def)
  then obtain r s1 where r: "RequestPlayoutData True ?reply 3 ?s = Inr (r, s1)" by blast
  have c: "play_channels ?s = 2" "audio_transport_cb ?s = Some 1"
    by (simp_all add: AudioDeviceBuffer_ctor_def)
  from GetPlayoutData_returns_requested_frames[OF r] c
  have "GetPlayoutData True s1 = Inr (3, play_buffer s1) \<and>
         sint (3 :: int32_t) = 3 \<and>
         Buffer_size (play_buffer s1) = 12 \<and> r = 1"
    by simp
  then show ?thesis using r by blast
qed

subsection \<open>Five hundred silent buffers\<close>

lemma SetRecordedBuffer_silent:
  assumes "rec_stat_count s < 50" and "rec_channels s = 1"
  shows "\<exists>s'. SetRecordedBuffer d (replicate 160 0) 160 s = Inr (0, s') \<and>
           rec_stat_count s' = (rec_stat_count s + 1) mod 50 \<and>
           rec_channels s' = 1 \<and>
           trace s' = trace s @ (if rec_stat_count s = 49 then [Rec_MaxAbsValueW16 0] else []) \<and>
           only_silence_recorded s' = only_silence_recorded s \<and>
           task_queue s' = task_queue s @ [Task_UpdateRecStats 0 160]"
proof -
  have z: "WebRtcSpl_MaxAbsValueW16 (replicate 160 0) = 0"
    by (simp add: MaxAbsValueW16_zero)
  consider (m) "rec_stat_count s = 49" | (c) "rec_stat_count s < 49"
    using assms(1) by linarith
  then show ?thesis
  proof cases
    case m
    then show ?thesis using assms(2) z
      by (simp add: SetRecordedBuffer_def Let_def PostTask_def Buffer_SetData_def)
  next
    case c
    then show ?thesis using assms(2)
      by (simp add: SetRecordedBuffer_def Let_def PostTask_def Buffer_SetData_def)
  qed
qed

lemma SetRecordedBuffer_calls_silent:
  assumes "rec_stat_count s < 50" and "rec_channels s = 1"
  shows "\<exists>s'. SetRecordedBuffer_calls d (replicate k (replicate 160 0, 160)) s = Inr s' \<and>
           rec_peaks (trace s') =
             rec_peaks (trace s) @ replicate ((rec_stat_count s + k) div 50) 0 \<and>
           only_silence_recorded s' = only_silence_recorded s \<and>
           task_queue s' = task_queue s @ replicate k (Task_UpdateRecStats 0 160)"
  using assms
proof (induction k arbitrary: s)
  case 0
  then show ?case by simp
next
  case (Suc k)
  from SetRecordedBuffer_silent[OF Suc.prems, of d]
  obtain s1 where s1: "SetRecordedBuffer d (replicate 160 0) 160 s = Inr (0, s1)"
    "rec_stat_count s1 = (rec_stat_count s + 1) mod 50" "rec_channels s1 = 1"
    "trace s1 = trace s @ (if rec_stat_count s = 49 then [Rec_MaxAbsValueW16 0] else [])"
    "only_silence_recorded s1 = only_silence_recorded s"
    "task_queue s1 = task_queue s @ [Task_UpdateRecStats 0 160]"
    by blast
  have lt: "rec_stat_count s1 < 50" using s1(2) by simp
  from Suc.IH[OF lt s1(3)]
  obtain s' where s': "SetRecordedBuffer_calls d (replicate k (replicate 160 0, 160)) s1 = Inr s'"
    "rec_peaks (trace s') = rec_peaks (trace s1) @ replicate ((rec_stat_count s1 + k) div 50) 0"
    "only_silence_recorded s' = only_silence_recorded s1"
    "task_queue s' = task_queue s1 @ replicate k (Task_UpdateRecStats 0 160)"
    by blast
  have run: "SetRecordedBuffer_calls d (replicate (Suc k) (replicate 160 0, 160)) s = Inr s'"
    using s1(1) s'(1) by simp
  have "rec_peaks (trace s1) = rec_peaks (trace s) @ replicate (if rec_stat_count s = 49 then 1 else 0) 0"
    using s1(4) by (simp add: rec_peaks_def)
  then have pk: "rec_peaks (trace s') = rec_peaks (trace s) @ replicate ((rec_stat_count s + Suc k) div 50) 0"
    using s'(2) s1(2) count_step[OF Suc.prems(1), of k]
    by (simp add: replicate_add[symmetric] del: replicate_add)
  have tq: "task_queue s' = task_queue s @ replicate (Suc k) (Task_UpdateRecStats 0 160)"
    using s'(4) s1(6) by simp
  show ?case using run pk tq s'(3) s1(5) by blast
qed

lemma LogStats_total: "\<exists>s'. LogStats d st c c s = Inr s' \<and> rec_samples s' = rec_samples s"
  by (simp add: LogStats_def Let_def PostDelayedTask_def kTimerIntervalInMilliseconds_def
      kTimerIntervalInSeconds_def kNumMillisecsPerSec_def)

lemma run_task_total: "\<exists>s'. run_task d c t s = Inr s'"
proof (cases t)
  case (Task_LogStats st)
  then show ?thesis using LogStats_total[of d st c s] by (auto simp: run_task_def)
qed (simp_all add: run_task_def)

lemma run_tasks_total: "\<exists>s'. run_tasks d c q s = Inr s'"
proof (induction q arbitrary: s)
  case Nil
  then show ?case by simp
next
  case (Cons t q)
  obtain s1 where "run_task d c t s = Inr s1" using run_task_total by blast
  then show ?case using Cons.IH[of s1] by simp
qed

lemma run_tasks_append:
  "run_tasks d c (a @ b) s =
     (case run_tasks d c a s of Inl f \<Rightarrow> Inl f | Inr s1 \<Rightarrow> run_tasks d c b s1)"
  by (induction a arbitrary: s) (auto split: sum.splits)

lemma run_tasks_rec_updates:
  "\<exists>s'. run_tasks d c (replicate k (Task_UpdateRecStats m n)) s = Inr s' \<and>
        rec_samples s' = rec_samples s + k * unat n"
proof (induction k arbitrary: s)
  case 0
  then show ?case by simp
next
  case (Suc k)
  let ?s1 = "UpdateRecStats m n s"
  have 1: "run_task d c (Task_UpdateRecStats m n) s = Inr ?s1" by (simp add: run_task_def)
  have 2: "rec_samples ?s1 = rec_samples s + unat n" by (simp add: UpdateRecStats_def Let_def)
  from Suc.IH[of ?s1] show ?case using 1 2 by auto
qed

lemma run_tasks_LogStats_START:
  "\<exists>s'. run_tasks d c (if p then [] else [Task_LogStats LOG_START]) s = Inr s' \<and>
        rec_samples s' = rec_samples s"
  using LogStats_total[of d LOG_START c s] by (auto simp: run_task_def)

lemma rec_peaks_Nil: "rec_peaks [] = []"
  by (simp add: rec_peaks_def)

text \<open>Claim C4. The object is configured for 16 kHz mono and is not recording; its
  counter \<open>rec_stat_count_\<close> is below 50, as it always is between calls. After
  \<open>StartRecording\<close>, 500 calls of \<open>SetRecordedBuffer\<close> with 160 frames of zeros run
  without a fault, measure the peak exactly 10 times, each time with the result 0, and
  leave the silence flag true. Once the task queue has run what was posted, the
  cumulative count of recorded samples is 80000.\<close>

theorem silent_session_of_500_buffers:
  assumes "\<not> recording s0" and "rec_stat_count s0 < 50"
    and "rec_channels s0 = 1" and "rec_sample_rate s0 = 16000"
  shows "\<exists>s2 s3.
           SetRecordedBuffer_calls d (replicate 500 (replicate 160 0, 160)) (StartRecording t0 s0)
             = Inr s2 \<and>
           rec_peaks (trace s2) = rec_peaks (trace s0) @ replicate 10 0 \<and>
           only_silence_recorded s2 \<and>
           run_pending d t1 s2 = Inr s3 \<and>
           rec_samples s3 = 80000"
proof -
  let ?s1 = "StartRecording t0 s0"
  let ?L = "if playing s0 then [] else [Task_LogStats LOG_START]"
  let ?U = "replicate 500 (Task_UpdateRecStats 0 160)"
  have s1: "rec_stat_count ?s1 = rec_stat_count s0" "rec_channels ?s1 = 1"
    "only_silence_recorded ?s1" "trace ?s1 = trace s0"
    "task_queue ?s1 = task_queue s0 @ Task_ResetRecStats # ?L"
    using assms(1,3)
    by (simp_all add: StartRecording_def Let_def PostTask_def StartPeriodicLogging_def)
  have lt: "rec_stat_count ?s1 < 50" using s1(1) assms(2) by simp
  have ten: "(rec_stat_count s0 + 500) div 50 = 10" using assms(2) by simp
  from SetRecordedBuffer_calls_silent[OF lt s1(2), of d 500]
  obtain s2 where s2:
    "SetRecordedBuffer_calls d (replicate 500 (replicate 160 0, 160)) ?s1 = Inr s2"
    "rec_peaks (trace s2) = rec_peaks (trace s0) @ replicate 10 0"
    "only_silence_recorded s2"
    "task_queue s2 = (task_queue s0 @ Task_ResetRecStats # ?L) @ ?U"
    using s1 ten by auto
  obtain sa where sa: "run_tasks d t1 (task_queue s0) (s2\<lparr>task_queue := []\<rparr>) = Inr sa"
    using run_tasks_total by blast
  let ?sb = "ResetRecStats sa"
  have sb: "run_task d t1 Task_ResetRecStats sa = Inr ?sb" "rec_samples ?sb = 0"
    by (simp_all add: run_task_def ResetRecStats_def)
  obtain sc where sc: "run_tasks d t1 ?L ?sb = Inr sc" "rec_samples sc = rec_samples ?sb"
    using run_tasks_LogStats_START[of d t1 "playing s0" ?sb] by blast
  obtain s3 where s3: "run_tasks d t1 ?U sc = Inr s3" "rec_samples s3 = rec_samples sc + 500 * unat (160 :: size_t)"
    using run_tasks_rec_updates[of d t1 500 0 160 sc] by blast
  have "run_pending d t1 s2 = Inr s3"
    unfolding run_pending_def s2(4)
    using sa sb(1) sc(1) s3(1) by (simp add: run_tasks_append)
  moreover have "rec_samples s3 = 80000" using s3(2) sc(2) sb(2) by simp
  ultimately show ?thesis using s2(1,2,3) by blast
qed

theorem silent_session_of_500_buffers_witness:
  "\<exists>s2 s3.
     SetRecordedBuffer_calls True (replicate 500 (replicate 160 0, 160))
       (StartRecording 0 (snd (SetRecordingChannels 1 (snd (SetRecordingSampleRate 16000
          AudioDeviceBuffer_ctor))))) = Inr s2 \<and>
     rec_peaks (trace s2) = replicate 10 0 \<and>
     only_silence_recorded s2 \<and>
     run_pending True 5000 s2 = Inr s3 \<and>
     rec_samples s3 = 80000"
  using silent_session_of_500_buffers
    [of "snd (SetRecordingChannels 1 (snd (SetRecordingSampleRate 16000 AudioDeviceBuffer_ctor)))"
        True 0 5000]
  by (simp add: SetRecordingChannels_def SetRecordingSampleRate_def AudioDeviceBuffer_ctor_def
      rec_peaks_Nil)

subsection \<open>The periodic reporter\<close>

lemma rec_logs_append [simp]: "rec_logs (a @ b) = rec_logs a @ rec_logs b"
  by (simp add: rec_logs_def)

lemma play_logs_append [simp]: "play_logs (a @ b) = play_logs a @ play_logs b"
  by (simp add: play_logs_def)










end
